theory Spec2Isabelle
  imports Main "HOL-Library.AList"
begin

section \<open>Data model of the entity loader\<close>

text \<open>
  The development embeds \<^verbatim>\<open>packages/core/src/entity/EntityLoader.ts\<close>.
  Objects that the loader only reads (metadata, populate hints, conditions) are values;
  objects it mutates (entities, collections, the options bag) live in an explicit heap or
  are returned updated. A JavaScript exception is the \<open>Inl\<close> branch of a sum.
\<close>

datatype LoadStrategy = SELECT_IN | JOINED

datatype ReferenceType =
  SCALAR | ONE_TO_ONE | ONE_TO_MANY | MANY_TO_ONE | MANY_TO_MANY | EMBEDDED

text \<open>
  \<^verbatim>\<open>PopulateOptions = { field, strategy?, children?, all? }\<close>. An absent optional
  member is \<open>None\<close>; an empty \<^verbatim>\<open>children\<close> array is \<open>Some []\<close> (truthy in
  JavaScript, so the two are told apart by the code).
\<close>

datatype PopulateOptions =
  PopulateOptions
    (p_field: string)
    (p_strategy: "LoadStrategy option")
    (p_children: "PopulateOptions list option")
    (p_all: "bool option")

text \<open>The populate argument of \<^verbatim>\<open>populate\<close>: \<^verbatim>\<open>PopulateOptions[] | boolean\<close>.\<close>

datatype Populate = PBool bool | PList "PopulateOptions list"

text \<open>
  JSON-like values for primary keys and filter conditions; a \<^verbatim>\<open>Dictionary\<close> is an
  association list in insertion order.
\<close>

datatype jv =
  JNull | JBool bool | JNum int | JStr string | JArr "jv list" | JObj "(string \<times> jv) list"

type_synonym dict = "(string \<times> jv) list"

record EntityProperty =
  prop_name :: string
  prop_type :: string
  reference :: ReferenceType
  lazy :: bool
  eager :: bool
  owner :: bool
  mappedBy :: string
  prop_strategy :: "LoadStrategy option"
  embedded :: "(string \<times> string) option"
  mapToPk :: bool
  customType :: bool
  prop_orderBy :: "jv option"

record EntityMetadata =
  meta_name :: string
  className :: string
  properties :: "(string \<times> EntityProperty) list"
  relations :: "EntityProperty list"
  primaryKeys :: "string list"

text \<open>The metadata storage: \<^verbatim>\<open>this.metadata.find(name)\<close> is a lookup by entity name.\<close>

type_synonym MetadataStorage = "(string \<times> EntityMetadata) list"

definition find_meta :: "MetadataStorage \<Rightarrow> string \<Rightarrow> EntityMetadata option" where
  "find_meta metadata entityName = map_of metadata entityName"

text \<open>
  Errors. \<open>TypeError\<close> is a property read on \<^verbatim>\<open>undefined\<close>; \<open>RangeError\<close> is the
  call stack overflowing on an unbounded recursion; \<open>OutOfFuel\<close> marks a recursion of the
  model that was cut off by its step bound; \<open>FetchFailure\<close> is whatever an external
  collaborator rejected with; \<open>Unmodelled\<close> marks the one input shape the value model
  cannot express (a named member assigned on an array).
\<close>

datatype error =
  TypeError
  | RangeError
  | OutOfFuel
  | NotDiscoveredEntity string
  | InvalidPropertyName string string
  | FetchFailure string
  | Unmodelled

text \<open>\<^verbatim>\<open>Array.prototype.forEach\<close> with a body that may throw: the first error ends the loop.\<close>

fun forEach :: "('a \<Rightarrow> 's \<Rightarrow> error + 's) \<Rightarrow> 'a list \<Rightarrow> 's \<Rightarrow> error + 's" where
  "forEach f [] s = Inr s"
| "forEach f (x # xs) s = (case f x s of Inl e \<Rightarrow> Inl e | Inr s' \<Rightarrow> forEach f xs s')"

lemma forEach_cong [fundef_cong]:
  "xs = ys \<Longrightarrow> s = t \<Longrightarrow> (\<And>x u. x \<in> set ys \<Longrightarrow> f x u = g x u)
    \<Longrightarrow> forEach f xs s = forEach g ys t"
proof (induction ys arbitrary: xs s t)
  case Nil
  then show ?case by simp
next
  case (Cons y ys)
  then show ?case by (auto split: sum.splits)
qed

section \<open>Populate normalizer\<close>

text \<open>
  Populate hints are values here. In the source they are objects which
  \<^verbatim>\<open>normalizePopulate\<close> and \<^verbatim>\<open>mergeNestedPopulate\<close> rewrite in place, and the
  functions below compute the list that is returned. The two agree as long as no hint object
  occurs at two places of the list being rewritten; that can only happen when the caller
  passes one object twice, or when the eager lookup returns the children of a hint unchanged
  (for a type already visited, or unknown) and these children are not empty.
\<close>

subsection \<open>Strings\<close>

text \<open>\<^verbatim>\<open>String.prototype.split('.')\<close>: never empty, keeps empty segments.\<close>

fun split_on :: "char \<Rightarrow> string \<Rightarrow> string list" where
  "split_on c [] = [[]]"
| "split_on c (x # xs) =
     (if x = c then [] # split_on c xs
      else (case split_on c xs of
              [] \<Rightarrow> [[x]]
            | w # ws \<Rightarrow> (x # w) # ws))"

definition includes_dot :: "string \<Rightarrow> bool" where
  "includes_dot s = (CHR ''.'' \<in> set s)"

subsection \<open>Relation names\<close>

text \<open>
  \<^verbatim>\<open>getRelationName\<close> follows \<^verbatim>\<open>prop.embedded[0]\<close> through
  \<^verbatim>\<open>meta.properties\<close>. A chain that never repeats a key is no longer than the
  property table, so the bound \<open>length (properties meta)\<close> cuts off exactly the chains that
  loop for ever, which in JavaScript exhaust the stack.
\<close>

fun getRelationName_rec :: "nat \<Rightarrow> EntityMetadata \<Rightarrow> EntityProperty \<Rightarrow> error + string" where
  "getRelationName_rec n meta prop =
     (case embedded prop of
        None \<Rightarrow> Inr (prop_name prop)
      | Some (e0, e1) \<Rightarrow>
          (case n of
             0 \<Rightarrow> Inl RangeError
           | Suc m \<Rightarrow>
               (case map_of (properties meta) e0 of
                  None \<Rightarrow> Inl TypeError
                | Some parent \<Rightarrow>
                    (case getRelationName_rec m meta parent of
                       Inl e \<Rightarrow> Inl e
                     | Inr s \<Rightarrow> Inr (s @ ''.'' @ e1)))))"

definition getRelationName :: "EntityMetadata \<Rightarrow> EntityProperty \<Rightarrow> error + string" where
  "getRelationName meta prop = getRelationName_rec (length (properties meta)) meta prop"

subsection \<open>Populating all relations\<close>

definition lookupAllRelationships :: "MetadataStorage \<Rightarrow> string \<Rightarrow> error + PopulateOptions list" where
  "lookupAllRelationships metadata entityName =
     (case find_meta metadata entityName of
        None \<Rightarrow> Inl TypeError
      | Some meta \<Rightarrow>
          forEach
            (\<lambda>prop ret.
               case getRelationName meta prop of
                 Inl e \<Rightarrow> Inl e
               | Inr f \<Rightarrow> Inr (ret @ [PopulateOptions f (Some SELECT_IN) None (Some True)]))
            (relations meta) [])"

subsection \<open>Eagerly loaded relations\<close>

definition or_else :: "'a option \<Rightarrow> 'a option \<Rightarrow> 'a option" where
  "or_else a b = (case a of None \<Rightarrow> b | Some x \<Rightarrow> Some x)"

definition nestedPopulate_of :: "PopulateOptions list \<Rightarrow> string \<Rightarrow> PopulateOptions list" where
  "nestedPopulate_of populate n =
     (case find (\<lambda>p. p_field p = n) populate of
        None \<Rightarrow> []
      | Some p \<Rightarrow> (case p_children p of None \<Rightarrow> [] | Some cs \<Rightarrow> cs))"

text \<open>
  \<^verbatim>\<open>lookupEagerLoadedRelationships\<close>. The first argument bounds the depth of the
  recursion; the source has no such bound, and \<open>Inl OutOfFuel\<close> stands for a recursion
  that is still running when the bound is reached.
\<close>

fun lookupEagerLoadedRelationships ::
  "nat \<Rightarrow> MetadataStorage \<Rightarrow> string \<Rightarrow> PopulateOptions list \<Rightarrow> LoadStrategy option
     \<Rightarrow> string \<Rightarrow> string list \<Rightarrow> error + PopulateOptions list" where
  "lookupEagerLoadedRelationships fuel metadata entityName populate strategy prefix visited =
     (case find_meta metadata entityName of
        None \<Rightarrow> Inr populate
      | Some meta \<Rightarrow>
          if entityName \<in> set visited then Inr populate
          else
            (case fuel of
               0 \<Rightarrow> Inl OutOfFuel
             | Suc n \<Rightarrow>
                 forEach
                   (\<lambda>prop ret.
                      case getRelationName meta prop of
                        Inl e \<Rightarrow> Inl e
                      | Inr f \<Rightarrow>
                          (let prefixed = (if prefix \<noteq> [] then prefix @ ''.'' @ f else f) in
                           case lookupEagerLoadedRelationships n metadata (prop_type prop)
                                  (nestedPopulate_of populate (prop_name prop)) strategy prefixed
                                  (visited @ [entityName]) of
                             Inl e \<Rightarrow> Inl e
                           | Inr nested \<Rightarrow>
                               if nested \<noteq> [] then Inr (ret @ nested)
                               else Inr (ret @ [PopulateOptions prefixed
                                                 (or_else strategy (prop_strategy prop)) None None])))
                   (filter (\<lambda>prop. eager prop \<or> (\<exists>p \<in> set populate. p_field p = prop_name prop))
                      (relations meta))
                   (if prefix = [] then populate else [])))"

declare getRelationName_rec.simps [simp del]
declare lookupEagerLoadedRelationships.simps [simp del]

subsection \<open>Dotted paths\<close>

text \<open>
  \<^verbatim>\<open>expandNestedPopulate\<close>. Every call site passes at least one segment, so the
  equation for the empty list is never used.
\<close>

fun expandNestedPopulate ::
  "MetadataStorage \<Rightarrow> string \<Rightarrow> string list \<Rightarrow> LoadStrategy option \<Rightarrow> bool option
     \<Rightarrow> error + PopulateOptions" where
  "expandNestedPopulate metadata entityName [] strategy all_flag = Inl TypeError"
| "expandNestedPopulate metadata entityName (f # parts) strategy all_flag =
     (case find_meta metadata entityName of
        None \<Rightarrow> Inl TypeError
      | Some meta \<Rightarrow>
          if parts = [] then Inr (PopulateOptions f strategy None all_flag)
          else
            (case map_of (properties meta) f of
               None \<Rightarrow> Inl TypeError
             | Some prop \<Rightarrow>
                 (case expandNestedPopulate metadata (prop_type prop) parts strategy None of
                    Inl e \<Rightarrow> Inl e
                  | Inr c \<Rightarrow> Inr (PopulateOptions f strategy (Some [c]) all_flag))))"

text \<open>The body of the \<^verbatim>\<open>populate.forEach\<close> of \<^verbatim>\<open>normalizePopulate\<close>, for one element.\<close>

definition expandDotted ::
  "MetadataStorage \<Rightarrow> string \<Rightarrow> PopulateOptions \<Rightarrow> error + PopulateOptions" where
  "expandDotted metadata entityName p =
     (if \<not> includes_dot (p_field p) then Inr p
      else
        (case split_on CHR ''.'' (p_field p) of
           [] \<Rightarrow> Inl TypeError
         | f # parts \<Rightarrow>
             (case find_meta metadata entityName of
                None \<Rightarrow> Inl TypeError
              | Some meta \<Rightarrow>
                  (case map_of (properties meta) f of
                     None \<Rightarrow> Inl TypeError
                   | Some prop \<Rightarrow>
                       (let strategy = or_else (p_strategy p) (prop_strategy prop) in
                        case expandNestedPopulate metadata (prop_type prop) parts strategy (p_all p) of
                          Inl e \<Rightarrow> Inl e
                        | Inr c \<Rightarrow>
                            Inr (PopulateOptions f strategy
                                   (Some ((case p_children p of None \<Rightarrow> [] | Some cs \<Rightarrow> cs) @ [c]))
                                   (p_all p)))))))"

subsection \<open>Merging populate hints of the same field\<close>

definition merge_item :: "PopulateOptions \<Rightarrow> PopulateOptions \<Rightarrow> PopulateOptions" where
  "merge_item r item =
     (case p_children item of
        None \<Rightarrow> r
      | Some cs \<Rightarrow>
          (case p_children r of
             None \<Rightarrow> PopulateOptions (p_field r) (p_strategy r) (Some cs) (p_all r)
           | Some rc \<Rightarrow> PopulateOptions (p_field r) (p_strategy r) (Some (rc @ cs)) (p_all r)))"

text \<open>
  The callback of \<^verbatim>\<open>populate.reduce\<close>: the accumulator is the dictionary
  \<^verbatim>\<open>ret\<close>, keyed by field, in insertion order. Fields are property names: a name that
  is an array index (which \<^verbatim>\<open>Object.values\<close> lists first) or a member of
  \<^verbatim>\<open>Object.prototype\<close> is outside the model.
\<close>

fun merge_into :: "PopulateOptions list \<Rightarrow> PopulateOptions \<Rightarrow> PopulateOptions list" where
  "merge_into [] item = [item]"
| "merge_into (r # ret) item =
     (if p_field r = p_field item then merge_item r item # ret else r # merge_into ret item)"

fun psize :: "PopulateOptions \<Rightarrow> nat" where
  "psize (PopulateOptions f s cs a) =
     Suc (case cs of None \<Rightarrow> 0 | Some l \<Rightarrow> sum_list (map psize l))"

lemma psize_merge_item: "psize (merge_item r item) \<le> psize r + psize item"
  by (cases r; cases item) (auto simp: merge_item_def split: option.splits)

lemma psize_merge_into:
  "sum_list (map psize (merge_into ret item)) \<le> sum_list (map psize ret) + psize item"
proof (induction ret)
  case Nil
  then show ?case by simp
next
  case (Cons r ret)
  show ?case
  proof (cases "p_field r = p_field item")
    case True
    then show ?thesis using psize_merge_item [of r item] by simp
  next
    case False
    then show ?thesis using Cons.IH by simp
  qed
qed

lemma psize_foldl_merge_into:
  "sum_list (map psize (foldl merge_into acc xs)) \<le> sum_list (map psize acc) + sum_list (map psize xs)"
proof (induction xs arbitrary: acc)
  case Nil
  then show ?case by simp
next
  case (Cons x xs)
  have "sum_list (map psize (foldl merge_into (merge_into acc x) xs))
          \<le> sum_list (map psize (merge_into acc x)) + sum_list (map psize xs)"
    by (rule Cons.IH)
  also have "\<dots> \<le> sum_list (map psize acc) + psize x + sum_list (map psize xs)"
    using psize_merge_into [of acc x] by simp
  finally show ?case by simp
qed

lemma psize_member: "x \<in> set xs \<Longrightarrow> psize x \<le> sum_list (map psize xs)"
  by (induction xs) auto

lemma psize_children: "p_children item = Some cs \<Longrightarrow> sum_list (map psize cs) < psize item"
  by (cases item) simp

function mergeNestedPopulate :: "PopulateOptions list \<Rightarrow> PopulateOptions list" where
  "mergeNestedPopulate populate =
     map (\<lambda>item.
            case p_children item of
              None \<Rightarrow> item
            | Some cs \<Rightarrow>
                PopulateOptions (p_field item) (p_strategy item) (Some (mergeNestedPopulate cs))
                  (p_all item))
       (foldl merge_into [] populate)"
  by pat_completeness auto
termination
proof (relation "measure (\<lambda>populate. sum_list (map psize populate))")
  show "wf (measure (\<lambda>populate. sum_list (map psize populate)))" by simp
next
  fix populate :: "PopulateOptions list" and item cs
  assume mem: "item \<in> set (foldl merge_into [] populate)" and ch: "p_children item = Some cs"
  have "sum_list (map psize cs) < psize item" using ch by (rule psize_children)
  also have "\<dots> \<le> sum_list (map psize (foldl merge_into [] populate))"
    using mem by (rule psize_member)
  also have "\<dots> \<le> sum_list (map psize populate)"
    using psize_foldl_merge_into [of "[]" populate] by simp
  finally show "(cs, populate) \<in> measure (\<lambda>populate. sum_list (map psize populate))" by simp
qed

declare mergeNestedPopulate.simps [simp del]

subsection \<open>Normalization\<close>

fun mapM :: "('a \<Rightarrow> error + 'b) \<Rightarrow> 'a list \<Rightarrow> error + 'b list" where
  "mapM f [] = Inr []"
| "mapM f (x # xs) =
     (case f x of
        Inl e \<Rightarrow> Inl e
      | Inr y \<Rightarrow> (case mapM f xs of Inl e \<Rightarrow> Inl e | Inr ys \<Rightarrow> Inr (y # ys)))"

text \<open>Lines 75 to 79: the request is replaced by all relations, or taken as it is.\<close>

definition requestedPopulate ::
  "MetadataStorage \<Rightarrow> string \<Rightarrow> Populate \<Rightarrow> error + PopulateOptions list" where
  "requestedPopulate metadata entityName populate =
     (case populate of
        PBool True \<Rightarrow> lookupAllRelationships metadata entityName
      | PBool False \<Rightarrow> Inl TypeError
      | PList ps \<Rightarrow>
          if (\<exists>p \<in> set ps. p_all p = Some True) then lookupAllRelationships metadata entityName
          else Inr ps)"

definition normalizePopulate ::
  "MetadataStorage \<Rightarrow> string \<Rightarrow> Populate \<Rightarrow> LoadStrategy option \<Rightarrow> bool
     \<Rightarrow> error + PopulateOptions list" where
  "normalizePopulate metadata entityName populate strategy lookup =
     (case requestedPopulate metadata entityName populate of
        Inl e \<Rightarrow> Inl e
      | Inr p0 \<Rightarrow>
          (case (if lookup
                 then lookupEagerLoadedRelationships (length metadata) metadata entityName p0
                        strategy [] []
                 else Inr p0) of
             Inl e \<Rightarrow> Inl e
           | Inr p1 \<Rightarrow>
               (case mapM (expandDotted metadata entityName) p1 of
                  Inl e \<Rightarrow> Inl e
                | Inr p2 \<Rightarrow> Inr (mergeNestedPopulate p2))))"

section \<open>Conditions and field lists\<close>

text \<open>JavaScript truthiness of a JSON value.\<close>

fun truthy :: "jv \<Rightarrow> bool" where
  "truthy JNull = False"
| "truthy (JBool b) = b"
| "truthy (JNum n) = (n \<noteq> 0)"
| "truthy (JStr s) = (s \<noteq> [])"
| "truthy (JArr xs) = True"
| "truthy (JObj kv) = True"

fun isPrimitive :: "jv \<Rightarrow> bool" where
  "isPrimitive (JArr xs) = False"
| "isPrimitive (JObj kv) = False"
| "isPrimitive v = True"

text \<open>\<^verbatim>\<open>Utils.asArray\<close> on a defined value.\<close>

fun asArray :: "jv \<Rightarrow> jv list" where
  "asArray (JArr xs) = xs"
| "asArray v = [v]"

text \<open>
  \<^verbatim>\<open>Utils.unique\<close> is \<^verbatim>\<open>[...new Set(items)]\<close>: the first occurrence of each
  element stays. Arrays and objects are compared by identity, and the ones built here are
  fresh, so only primitive values can coincide.
\<close>

definition unique :: "'a list \<Rightarrow> 'a list" where
  "unique xs = foldl (\<lambda>acc x. if x \<in> set acc then acc else acc @ [x]) [] xs"

definition unique_jv :: "jv list \<Rightarrow> jv list" where
  "unique_jv xs = foldl (\<lambda>acc x. if isPrimitive x \<and> x \<in> set acc then acc else acc @ [x]) [] xs"

text \<open>Object spread \<^verbatim>\<open>{ ...a, ...b }\<close>: the members of \<open>b\<close> are assigned onto a copy of \<open>a\<close>.\<close>

definition spread :: "dict \<Rightarrow> dict \<Rightarrow> dict" where
  "spread a b = foldl (\<lambda>acc kv. AList.update (fst kv) (snd kv) acc) a b"

datatype EntityField = FieldName string | FieldGroup "(string \<times> EntityField list) list"

record EntityLoaderOptions =
  o_where :: "dict option"
  o_populateWhere :: "string option"
  o_fields :: "EntityField list option"
  o_orderBy :: "jv option"
  o_refresh :: "bool option"
  o_validate :: "bool option"
  o_lookup :: "bool option"
  o_convertCustomTypes :: "bool option"
  o_ignoreLazyScalarProperties :: "bool option"
  o_filters :: "jv option"
  o_strategy :: "LoadStrategy option"
  o_lockMode :: "nat option"
  o_schema :: "string option"
  o_connectionType :: "string option"

record FindOptions =
  fo_refresh :: "bool option"
  fo_filters :: "jv option"
  fo_convertCustomTypes :: "bool option"
  fo_lockMode :: "nat option"
  fo_populateWhere :: "string option"
  fo_orderBy :: "jv list"
  fo_populate :: Populate
  fo_strategy :: "LoadStrategy option"
  fo_fields :: "EntityField list option"
  fo_schema :: "string option"
  fo_connectionType :: "string option"

text \<open>One call to an external fetch collaborator, as the loader issued it.\<close>

datatype fetch =
  Find string dict FindOptions
  | LoadFromPivotTable EntityProperty "jv list list" dict "jv list" EntityLoaderOptions
      "EntityField list option" "PopulateOptions list"

section \<open>Entities, collections and collaborators\<close>

type_synonym eid = nat

text \<open>
  Modelled from the spec: \<^verbatim>\<open>Collection\<close> is not part of the loader. It is "an ordered
  container with an explicit initialized/uninitialized state and an owning entity
  back-reference".
\<close>

record Collection =
  c_owner :: eid
  c_initialized :: bool
  c_items :: "eid list"
  c_populated :: bool

text \<open>
  What \<^verbatim>\<open>entity[field]\<close> can hold: nothing, a scalar, an entity, a
  \<^verbatim>\<open>Reference\<close> wrapper, a collection, or embedded objects (as
  \<^verbatim>\<open>Utils.asArray\<close> lists them).
\<close>

datatype slot =
  Undefined | Null | Scalar jv | Entity eid | Reference eid | Coll Collection | Embedded "eid list"

record state =
  helper :: "eid \<Rightarrow> bool"
  initialized :: "eid \<Rightarrow> bool"
  populated :: "eid \<Rightarrow> bool"
  schema_of :: "eid \<Rightarrow> string option"
  primaryKey :: "eid \<Rightarrow> jv"
  primaryKeyValues :: "eid \<Rightarrow> jv"
  primaryKeysOf :: "eid \<Rightarrow> jv list"
  serializedPrimaryKey :: "eid \<Rightarrow> string"
  slots :: "eid \<Rightarrow> string \<Rightarrow> slot"
  serializationPopulate :: "eid \<Rightarrow> PopulateOptions list option"
  fetches :: "fetch list"

text \<open>
  The collaborators of the loader, which it reaches through \<^verbatim>\<open>this.em\<close>,
  \<^verbatim>\<open>this.driver\<close>, \<^verbatim>\<open>QueryHelper\<close> and \<^verbatim>\<open>Utils\<close>. They are parameters:
  nothing is assumed about what they return. A rejected promise is \<open>Inl\<close>.
\<close>

record env =
  em_find :: "string \<Rightarrow> dict \<Rightarrow> FindOptions \<Rightarrow> state \<Rightarrow> (string + eid list) \<times> state"
  loadFromPivotTable ::
    "EntityProperty \<Rightarrow> jv list list \<Rightarrow> dict \<Rightarrow> jv list \<Rightarrow> EntityLoaderOptions
       \<Rightarrow> EntityField list option \<Rightarrow> PopulateOptions list \<Rightarrow> string + (string \<times> dict list) list"
  factory_create :: "string \<Rightarrow> dict \<Rightarrow> bool option \<Rightarrow> string option \<Rightarrow> eid"
  canPopulate :: "string \<Rightarrow> string \<Rightarrow> bool"
  processWhere :: "dict \<Rightarrow> string \<Rightarrow> bool \<Rightarrow> dict"
  processCustomType :: "EntityProperty \<Rightarrow> jv list \<Rightarrow> jv list"
  applyFilters :: "string \<Rightarrow> dict \<Rightarrow> jv option \<Rightarrow> string + dict"
  getPrimaryKeyHash :: "string list \<Rightarrow> string"
  isOperator :: "string \<Rightarrow> bool"
  isPrimaryKey :: "jv \<Rightarrow> bool"
  usesPivotTable :: bool
  autoJoinOneToOneOwner :: bool
  config_schema :: "string option"

subsection \<open>Helpers on slots\<close>

text \<open>\<^verbatim>\<open>Utils.isEntity(value, allowReference)\<close>, \<^verbatim>\<open>Reference.isReference\<close>,
  \<^verbatim>\<open>Utils.isCollection\<close> and the truthiness of a slot.\<close>

fun isEntity :: "slot \<Rightarrow> bool \<Rightarrow> bool" where
  "isEntity (Entity x) allowReference = True"
| "isEntity (Reference x) allowReference = allowReference"
| "isEntity v allowReference = False"

fun isReference :: "slot \<Rightarrow> bool" where
  "isReference (Reference x) = True"
| "isReference v = False"

fun isCollection :: "slot \<Rightarrow> bool" where
  "isCollection (Coll c) = True"
| "isCollection v = False"

fun slot_truthy :: "slot \<Rightarrow> bool" where
  "slot_truthy Undefined = False"
| "slot_truthy Null = False"
| "slot_truthy (Scalar v) = truthy v"
| "slot_truthy v = True"

text \<open>
  Modelled from the spec: \<^verbatim>\<open>Collection.isInitialized(fully)\<close> reads the "explicit
  initialized/uninitialized state" of the collection. The loader passes \<open>fully = true\<close>,
  which is taken in the stronger sense that every item is a loaded entity as well.
\<close>

definition isInitialized :: "state \<Rightarrow> Collection \<Rightarrow> bool \<Rightarrow> bool" where
  "isInitialized st c fully =
     (if fully then c_initialized c \<and> (\<forall>x \<in> set (c_items c). initialized st x)
      else c_initialized c)"

text \<open>
  Modelled from the spec: \<^verbatim>\<open>Collection.hydrate(items)\<close> replaces the contents by
  \<open>items\<close>, in that order, and marks the collection initialized. On a slot that holds no
  collection the method does not exist.
\<close>

definition hydrate :: "eid \<Rightarrow> string \<Rightarrow> eid list \<Rightarrow> state \<Rightarrow> error + state" where
  "hydrate e f items st =
     (case slots st e f of
        Coll c \<Rightarrow>
          Inr (st\<lparr>slots := (slots st)(e := (slots st e)(f := Coll (c\<lparr>c_items := items, c_initialized := True\<rparr>)))\<rparr>)
      | _ \<Rightarrow> Inl TypeError)"

section \<open>Lookup conditions\<close>

definition mergePrimaryCondition ::
  "env \<Rightarrow> jv list \<Rightarrow> string \<Rightarrow> EntityLoaderOptions \<Rightarrow> EntityMetadata \<Rightarrow> error + dict" where
  "mergePrimaryCondition env ids pk options meta =
     (let cond1 = processWhere env [(pk, JObj [(''$in'', JArr ids)])] (meta_name meta)
                    (\<not> (o_convertCustomTypes options = Some True)) in
      case o_where options of
        None \<Rightarrow> Inl TypeError
      | Some w \<Rightarrow>
          (if (case map_of w pk of None \<Rightarrow> False | Some v \<Rightarrow> truthy v)
           then Inr [(''$and'', JArr [JObj cond1, JObj w])]
           else Inr (spread cond1 w)))"

text \<open>A loop whose body may throw, keeping the state reached when it does.\<close>

fun forEachS :: "('a \<Rightarrow> 's \<Rightarrow> error + 's) \<Rightarrow> 'a list \<Rightarrow> 's \<Rightarrow> error option \<times> 's" where
  "forEachS f [] s = (None, s)"
| "forEachS f (x # xs) s = (case f x s of Inl e \<Rightarrow> (Some e, s) | Inr s' \<Rightarrow> forEachS f xs s')"

text \<open>
  The chain \<^verbatim>\<open>options.where[op].map(...).filter(...).map(...)\<close> of
  \<^verbatim>\<open>extractChildCondition\<close>, for the value \<open>v\<close> of \<^verbatim>\<open>options.where[op]\<close>.
\<close>

definition childConditions :: "env \<Rightarrow> string \<Rightarrow> string \<Rightarrow> jv \<Rightarrow> error + jv list" where
  "childConditions env n pk v =
     (case v of
        JArr conds \<Rightarrow>
          (case mapM (\<lambda>cond. case cond of
                               JNull \<Rightarrow> Inl TypeError
                             | JObj kv \<Rightarrow> Inr (map_of kv n)
                             | _ \<Rightarrow> Inr None) conds of
             Inl e \<Rightarrow> Inl e
           | Inr subs \<Rightarrow>
               Inr (map (\<lambda>c. if isPrimaryKey env c then JObj [(pk, c)] else c)
                      (filter (\<lambda>sub. sub \<noteq> JNull \<and>
                                 \<not> (case sub of
                                      JObj kv \<Rightarrow> list_all (isOperator env) (map fst kv)
                                    | _ \<Rightarrow> False))
                         (concat (map (\<lambda>sub. case sub of None \<Rightarrow> [] | Some x \<Rightarrow> [x]) subs)))))
      | _ \<Rightarrow> Inl TypeError)"

definition groupStep :: "env \<Rightarrow> dict \<Rightarrow> string \<Rightarrow> string \<Rightarrow> string \<Rightarrow> dict \<Rightarrow> error + dict" where
  "groupStep env w n pk op subCond =
     (case map_of w op of
        None \<Rightarrow> Inr subCond
      | Some v \<Rightarrow>
          if \<not> truthy v then Inr subCond
          else
            (case childConditions env n pk v of
               Inl e \<Rightarrow> Inl e
             | Inr child \<Rightarrow>
                 if child \<noteq> [] then Inr (AList.update op (JArr child) subCond) else Inr subCond))"

text \<open>
  \<^verbatim>\<open>subCond[pk] ??= {}; subCond[pk][op] = subCond[op]; delete subCond[op]\<close>. Class
  bodies are strict code, so a member assignment on a primitive value throws.
\<close>

definition operatorStep :: "string \<Rightarrow> string \<Rightarrow> dict \<Rightarrow> error + dict" where
  "operatorStep pk op subCond =
     (let target = (case map_of subCond pk of
                      None \<Rightarrow> JObj []
                    | Some JNull \<Rightarrow> JObj []
                    | Some v \<Rightarrow> v);
          moved = (case map_of subCond op of None \<Rightarrow> JNull | Some v \<Rightarrow> v)
      in case target of
           JObj kv \<Rightarrow>
             Inr (AList.delete op (AList.update pk (JObj (AList.update op moved kv)) subCond))
         | JArr xs \<Rightarrow> Inl Unmodelled
         | _ \<Rightarrow> Inl TypeError)"

text \<open>
  \<^verbatim>\<open>extractChildCondition\<close>. When \<^verbatim>\<open>options.where[prop.name]\<close> is a plain object,
  \<^verbatim>\<open>subCond\<close> is that very object and the function rewrites it in place; the second
  component of the result is the content of \<^verbatim>\<open>options.where\<close> afterwards.
\<close>

definition extractChildCondition ::
  "env \<Rightarrow> MetadataStorage \<Rightarrow> EntityLoaderOptions \<Rightarrow> EntityProperty \<Rightarrow> bool
     \<Rightarrow> (error + dict) \<times> dict option" where
  "extractChildCondition env metadata options prop filters =
     (case o_where options of
        None \<Rightarrow> (Inl TypeError, None)
      | Some w \<Rightarrow>
          (let aliased = (case map_of w (prop_name prop) of Some (JObj kv) \<Rightarrow> True | _ \<Rightarrow> False);
               subCond0 = (case map_of w (prop_name prop) of Some (JObj kv) \<Rightarrow> kv | _ \<Rightarrow> []);
               put = (\<lambda>subCond. if aliased
                                 then Some (AList.update (prop_name prop) (JObj subCond) w)
                                 else Some w)
           in case find_meta metadata (prop_type prop) of
                None \<Rightarrow> (Inl TypeError, Some w)
              | Some meta2 \<Rightarrow>
                  (let pk = getPrimaryKeyHash env (primaryKeys meta2) in
                   case forEachS (groupStep env w (prop_name prop) pk) [''$and'', ''$or''] subCond0 of
                     (Some e, subCond1) \<Rightarrow> (Inl e, put subCond1)
                   | (None, subCond1) \<Rightarrow>
                       (case forEachS (operatorStep pk)
                               (filter (isOperator env) (map fst subCond1)) subCond1 of
                          (Some e, subCond2) \<Rightarrow> (Inl e, put subCond2)
                        | (None, subCond2) \<Rightarrow>
                            if filters
                            then (case applyFilters env (prop_type prop) subCond2 (o_filters options) of
                                    Inl err \<Rightarrow> (Inl (FetchFailure err), put subCond2)
                                  | Inr cond \<Rightarrow> (Inr cond, put subCond2))
                            else (Inr subCond2, put subCond2)))))"

subsection \<open>Field partitioner\<close>

fun join_dot :: "string list \<Rightarrow> string" where
  "join_dot [] = []"
| "join_dot [x] = x"
| "join_dot (x # y # ys) = x @ ''.'' @ join_dot (y # ys)"

definition fieldsFor :: "string \<Rightarrow> EntityField \<Rightarrow> EntityField list" where
  "fieldsFor n f =
     (case f of
        FieldGroup kv \<Rightarrow> concat (map snd (filter (\<lambda>kf. fst kf = n) kv))
      | FieldName s \<Rightarrow>
          if includes_dot s
          then (case split_on CHR ''.'' s of
                  [] \<Rightarrow> []
                | propName # parts \<Rightarrow> if propName = n then [FieldName (join_dot parts)] else [])
          else [])"

definition buildFields ::
  "MetadataStorage \<Rightarrow> EntityField list option \<Rightarrow> EntityProperty \<Rightarrow> error + EntityField list option" where
  "buildFields metadata flds prop =
     (let ret = concat (map (fieldsFor (prop_name prop)) (case flds of None \<Rightarrow> [] | Some fs \<Rightarrow> fs)) in
      if ret = [] then Inr None
      else if reference prop = ONE_TO_MANY
      then (case find_meta metadata (prop_type prop) of
              None \<Rightarrow> Inl TypeError
            | Some targetMeta \<Rightarrow>
                (case map_of (properties targetMeta) (mappedBy prop) of
                   None \<Rightarrow> Inl TypeError
                 | Some owner_prop \<Rightarrow>
                     if FieldName (prop_name owner_prop) \<in> set ret then Inr (Some ret)
                     else Inr (Some (ret @ [FieldName (prop_name owner_prop)]))))
      else Inr (Some ret))"

section \<open>Relationship resolver\<close>

subsection \<open>Which parents need loading\<close>

definition filterCollections :: "state \<Rightarrow> eid list \<Rightarrow> string \<Rightarrow> bool \<Rightarrow> eid list" where
  "filterCollections st entities f refresh =
     (if refresh then filter (\<lambda>e. slot_truthy (slots st e f)) entities
      else filter (\<lambda>e. case slots st e f of
                          Coll c \<Rightarrow> \<not> isInitialized st c True
                        | _ \<Rightarrow> False) entities)"

text \<open>\<^verbatim>\<open>Reference.unwrapReference\<close> on a slot that holds an entity or a reference.\<close>

fun unwrapReference :: "slot \<Rightarrow> eid list" where
  "unwrapReference (Entity x) = [x]"
| "unwrapReference (Reference x) = [x]"
| "unwrapReference v = []"

definition filterReferences :: "state \<Rightarrow> eid list \<Rightarrow> string \<Rightarrow> bool \<Rightarrow> eid list" where
  "filterReferences st entities f refresh =
     (let children = filter (\<lambda>e. isEntity (slots st e f) True) entities in
      if refresh then concat (map (\<lambda>e. unwrapReference (slots st e f)) children)
      else concat (map (\<lambda>e. unwrapReference (slots st e f))
             (filter (\<lambda>e. \<not> list_all (initialized st) (unwrapReference (slots st e f))) children)))"

definition filterByReferences :: "state \<Rightarrow> eid list \<Rightarrow> string \<Rightarrow> bool \<Rightarrow> eid list" where
  "filterByReferences st entities f refresh =
     (if refresh then entities
      else filter (\<lambda>e. case slots st e f of
                          Entity x \<Rightarrow> \<not> initialized st x
                        | Reference x \<Rightarrow> \<not> initialized st x
                        | _ \<Rightarrow> True) entities)"

text \<open>
  \<^verbatim>\<open>getChildReferences\<close>. Under \<^verbatim>\<open>refresh\<close> a truthy slot that holds no
  collection has no \<^verbatim>\<open>owner\<close> and no \<^verbatim>\<open>getItems\<close>: the read of the primary key
  of \<^verbatim>\<open>undefined\<close> that follows, or the call itself, is a \<open>TypeError\<close>.
\<close>

definition getChildReferences ::
  "state \<Rightarrow> eid list \<Rightarrow> EntityProperty \<Rightarrow> bool \<Rightarrow> error + eid list" where
  "getChildReferences st entities prop refresh =
     (let filtered = filterCollections st entities (prop_name prop) refresh in
      if reference prop = ONE_TO_MANY
      then mapM (\<lambda>e. case slots st e (prop_name prop) of
                        Coll c \<Rightarrow> Inr (c_owner c)
                      | _ \<Rightarrow> Inl TypeError) filtered
      else if reference prop = MANY_TO_MANY \<and> owner prop
      then (case mapM (\<lambda>e. case slots st e (prop_name prop) of
                              Coll c \<Rightarrow> Inr (c_items c)
                            | _ \<Rightarrow> Inl TypeError) filtered of
              Inl e \<Rightarrow> Inl e
            | Inr iss \<Rightarrow> Inr (concat iss))
      else if reference prop = MANY_TO_MANY then Inr filtered
      else Inr (filterReferences st entities (prop_name prop) refresh))"

subsection \<open>The batched fetch\<close>

definition populateArg :: "PopulateOptions \<Rightarrow> Populate" where
  "populateArg populate =
     (case p_children populate of
        Some cs \<Rightarrow> PList cs
      | None \<Rightarrow> (case p_all populate of Some b \<Rightarrow> PBool b | None \<Rightarrow> PList []))"

definition orderByArray :: "jv option \<Rightarrow> jv list" where
  "orderByArray v = (case v of None \<Rightarrow> [] | Some x \<Rightarrow> asArray x)"

text \<open>
  Awaiting \<^verbatim>\<open>this.em.find\<close>: the call is recorded, the collaborator may change the
  entities, and a rejection is an error of the loader.
\<close>

definition callFind ::
  "env \<Rightarrow> string \<Rightarrow> dict \<Rightarrow> FindOptions \<Rightarrow> state \<Rightarrow> (error + eid list) \<times> state" where
  "callFind env entityName cond fo st =
     (let r = em_find env entityName cond fo st;
          st' = (snd r)\<lparr>fetches := fetches st @ [Find entityName cond fo]\<rparr>
      in case fst r of
           Inl err \<Rightarrow> (Inl (FetchFailure err), st')
         | Inr data \<Rightarrow> (Inr data, st'))"

text \<open>
  The parts of \<^verbatim>\<open>findChildren\<close>: whether the inverse one-to-one lookup is deferred
  (line 248), the batch key \<^verbatim>\<open>fk\<close>, the schema (lines 258 to 260) and the options
  handed to \<^verbatim>\<open>em.find\<close>.
\<close>

definition deferredOneToOne :: "env \<Rightarrow> EntityProperty \<Rightarrow> PopulateOptions \<Rightarrow> bool" where
  "deferredOneToOne env prop populate =
     (reference prop = ONE_TO_ONE \<and> \<not> owner prop \<and> p_strategy populate \<noteq> Some JOINED
      \<and> \<not> autoJoinOneToOneOwner env)"

definition batchKey ::
  "env \<Rightarrow> EntityMetadata \<Rightarrow> EntityProperty \<Rightarrow> PopulateOptions \<Rightarrow> error + string" where
  "batchKey env meta prop populate =
     (if reference prop = ONE_TO_MANY \<or> (reference prop = MANY_TO_MANY \<and> \<not> owner prop)
         \<or> deferredOneToOne env prop populate
      then (case map_of (properties meta) (mappedBy prop) of
              None \<Rightarrow> Inl TypeError
            | Some ownerProp \<Rightarrow> Inr (prop_name ownerProp))
      else Inr (getPrimaryKeyHash env (primaryKeys meta)))"

definition findSchema :: "state \<Rightarrow> EntityLoaderOptions \<Rightarrow> EntityProperty \<Rightarrow> eid list \<Rightarrow> string option" where
  "findSchema st options prop children =
     (if (o_schema options = None \<or> o_schema options = Some [])
         \<and> (reference prop = ONE_TO_ONE \<or> reference prop = MANY_TO_ONE)
      then (case find (\<lambda>e. case schema_of st e of None \<Rightarrow> False | Some sc \<Rightarrow> sc \<noteq> []) children of
              None \<Rightarrow> None
            | Some e \<Rightarrow> schema_of st e)
      else o_schema options)"

definition findOptionsFor ::
  "EntityLoaderOptions \<Rightarrow> EntityProperty \<Rightarrow> PopulateOptions \<Rightarrow> string \<Rightarrow> EntityField list option
     \<Rightarrow> string option \<Rightarrow> FindOptions" where
  "findOptionsFor options prop populate fk flds schema =
     \<lparr>fo_refresh = o_refresh options,
      fo_filters = o_filters options,
      fo_convertCustomTypes = o_convertCustomTypes options,
      fo_lockMode = o_lockMode options,
      fo_populateWhere = o_populateWhere options,
      fo_orderBy = orderByArray (o_orderBy options) @ orderByArray (prop_orderBy prop)
                     @ [JObj [(fk, JStr ''ASC'')]],
      fo_populate = populateArg populate,
      fo_strategy = o_strategy options,
      fo_fields = flds,
      fo_schema = schema,
      fo_connectionType = o_connectionType options\<rparr>"

definition findChildren ::
  "env \<Rightarrow> MetadataStorage \<Rightarrow> eid list \<Rightarrow> EntityProperty \<Rightarrow> PopulateOptions \<Rightarrow> EntityLoaderOptions
     \<Rightarrow> state \<Rightarrow> (error + eid list) \<times> state" where
  "findChildren env metadata entities prop populate options st =
     (let refresh = (o_refresh options = Some True) in
      case getChildReferences st entities prop refresh of
        Inl e \<Rightarrow> (Inl e, st)
      | Inr children0 \<Rightarrow>
          (case find_meta metadata (prop_type prop) of
             None \<Rightarrow> (Inl TypeError, st)
           | Some meta \<Rightarrow>
               (case batchKey env meta prop populate of
                  Inl e \<Rightarrow> (Inl e, st)
                | Inr fk \<Rightarrow>
                    (let children = (if deferredOneToOne env prop populate
                                     then filterByReferences st entities (prop_name prop) refresh
                                     else children0)
                     in if children = [] then (Inr [], st)
                        else
                          (case mergePrimaryCondition env
                                  (unique_jv (map (primaryKeyValues st) children)) fk options meta of
                             Inl e \<Rightarrow> (Inl e, st)
                           | Inr cond \<Rightarrow>
                               (case buildFields metadata (o_fields options) prop of
                                  Inl e \<Rightarrow> (Inl e, st)
                                | Inr flds \<Rightarrow>
                                    callFind env (prop_type prop) cond
                                      (findOptionsFor options prop populate fk flds
                                         (findSchema st options prop children))
                                      st))))))"

subsection \<open>Re-attaching children\<close>

fun slot_value :: "slot \<Rightarrow> jv option" where
  "slot_value Null = Some JNull"
| "slot_value (Scalar v) = Some v"
| "slot_value v = None"

definition initializeOneToMany ::
  "MetadataStorage \<Rightarrow> eid list \<Rightarrow> eid list \<Rightarrow> EntityProperty \<Rightarrow> string \<Rightarrow> state
     \<Rightarrow> error option \<times> state" where
  "initializeOneToMany metadata filtered children prop f st =
     forEachS
       (\<lambda>entity s.
          case (if children = [] then Inr []
                else (case find_meta metadata (prop_type prop) of
                        None \<Rightarrow> Inl TypeError
                      | Some targetMeta \<Rightarrow>
                          (case map_of (properties targetMeta) (mappedBy prop) of
                             None \<Rightarrow> Inl TypeError
                           | Some ownerProp \<Rightarrow>
                               Inr (filter
                                      (\<lambda>child.
                                         if mapToPk ownerProp
                                         then slot_value (slots s child (mappedBy prop))
                                                = Some (primaryKey s entity)
                                              \<and> isPrimitive (primaryKey s entity)
                                         else unwrapReference (slots s child (mappedBy prop)) = [entity])
                                      children)))) of
            Inl e \<Rightarrow> Inl e
          | Inr items \<Rightarrow> hydrate entity f items s)
       filtered st"

definition initializeManyToMany ::
  "eid list \<Rightarrow> eid list \<Rightarrow> EntityProperty \<Rightarrow> string \<Rightarrow> state \<Rightarrow> error option \<times> state" where
  "initializeManyToMany filtered children prop f st =
     forEachS
       (\<lambda>entity s.
          case mapM (\<lambda>child. case slots s child (mappedBy prop) of
                               Coll c \<Rightarrow> Inr (if entity \<in> set (c_items c) then [child] else [])
                             | _ \<Rightarrow> Inl TypeError) children of
            Inl e \<Rightarrow> Inl e
          | Inr keep \<Rightarrow> hydrate entity f (concat keep) s)
       filtered st"

definition initializeCollections ::
  "env \<Rightarrow> MetadataStorage \<Rightarrow> eid list \<Rightarrow> EntityProperty \<Rightarrow> string \<Rightarrow> eid list \<Rightarrow> state
     \<Rightarrow> error option \<times> state" where
  "initializeCollections env metadata filtered prop f children st =
     (case (if reference prop = ONE_TO_MANY
            then initializeOneToMany metadata filtered children prop f st
            else (None, st)) of
        (Some e, st1) \<Rightarrow> (Some e, st1)
      | (None, st1) \<Rightarrow>
          if reference prop = MANY_TO_MANY \<and> \<not> owner prop \<and> \<not> usesPivotTable env
          then initializeManyToMany filtered children prop f st1
          else (None, st1))"

section \<open>Pivot-table resolver\<close>

text \<open>
  Modelled from the spec: the entity factory and the unit of work are not part of the
  loader. \<^verbatim>\<open>create\<close> "returns the canonical in-memory entity" for a raw row, and
  \<^verbatim>\<open>registerManaged\<close> registers it "as a managed, already-loaded entity (loaded flag
  true)".
\<close>

definition registerManaged :: "eid \<Rightarrow> state \<Rightarrow> state" where
  "registerManaged e st = st\<lparr>helper := (helper st)(e := True), initialized := (initialized st)(e := True)\<rparr>"

definition resolveRow ::
  "env \<Rightarrow> EntityProperty \<Rightarrow> EntityLoaderOptions \<Rightarrow> dict \<Rightarrow> eid" where
  "resolveRow env prop options item =
     factory_create env (prop_type prop) item (o_refresh options)
       (or_else (o_schema options) (config_schema env))"

text \<open>The batch of parent keys handed to the pivot fetch (lines 331 and 341 to 343).\<close>

definition pivotKeys :: "env \<Rightarrow> EntityProperty \<Rightarrow> state \<Rightarrow> eid list \<Rightarrow> jv list list" where
  "pivotKeys env pr st filtered =
     (if customType pr then map (processCustomType env pr) (map (primaryKeysOf st) filtered)
      else map (primaryKeysOf st) filtered)"

text \<open>The body of the loop over \<^verbatim>\<open>filtered\<close> (lines 348 to 360), for one parent.\<close>

definition hydrateFromPivot ::
  "env \<Rightarrow> EntityProperty \<Rightarrow> EntityLoaderOptions \<Rightarrow> (string \<times> dict list) list \<Rightarrow> eid
     \<Rightarrow> eid list \<times> state \<Rightarrow> error + eid list \<times> state" where
  "hydrateFromPivot env prop options pivotMap entity cs =
     (case map_of pivotMap (serializedPrimaryKey (snd cs) entity) of
        None \<Rightarrow> Inl TypeError
      | Some rows \<Rightarrow>
          (let items = map (resolveRow env prop options) rows;
               st1 = fold registerManaged items (snd cs)
           in case hydrate entity (prop_name prop) items st1 of
                Inl e \<Rightarrow> Inl e
              | Inr st2 \<Rightarrow> Inr (fst cs @ items, st2)))"

definition findChildrenFromPivotTable ::
  "env \<Rightarrow> MetadataStorage \<Rightarrow> eid list \<Rightarrow> EntityProperty \<Rightarrow> EntityLoaderOptions \<Rightarrow> jv list
     \<Rightarrow> PopulateOptions option \<Rightarrow> state \<Rightarrow> (error + eid list) \<times> EntityLoaderOptions \<times> state" where
  "findChildrenFromPivotTable env metadata filtered prop options orderBy populate st =
     (let ex = extractChildCondition env metadata options prop True;
          options1 = options\<lparr>o_where := snd ex\<rparr>
      in case fst ex of
           Inl e \<Rightarrow> (Inl e, options1, st)
         | Inr cond \<Rightarrow>
             (case buildFields metadata (o_fields options) prop of
                Inl e \<Rightarrow> (Inl e, options1, st)
              | Inr flds \<Rightarrow>
                  (let ids2 = pivotKeys env prop st filtered;
                       pop2 = (case populate of
                                 None \<Rightarrow> []
                               | Some p \<Rightarrow> (case p_children p of None \<Rightarrow> [] | Some cs \<Rightarrow> cs));
                       st1 = st\<lparr>fetches := fetches st
                                @ [LoadFromPivotTable prop ids2 cond orderBy options1 flds pop2]\<rparr>
                   in case loadFromPivotTable env prop ids2 cond orderBy options1 flds pop2 of
                        Inl err \<Rightarrow> (Inl (FetchFailure err), options1, st1)
                      | Inr pivotMap \<Rightarrow>
                          (case forEachS (hydrateFromPivot env prop options pivotMap) filtered ([], st1) of
                             (Some e, cs) \<Rightarrow> (Inl e, options1, snd cs)
                           | (None, cs) \<Rightarrow> (Inr (fst cs), options1, snd cs)))))"

section \<open>Recursive orchestrator\<close>

text \<open>
  Modelled from the spec: \<^verbatim>\<open>populated()\<close> of an entity helper or of a collection only
  sets "its populated flag".
\<close>

definition setPopulated :: "string \<Rightarrow> eid \<Rightarrow> state \<Rightarrow> state" where
  "setPopulated f entity st =
     (case slots st entity f of
        Entity x \<Rightarrow> st\<lparr>populated := (populated st)(x := True)\<rparr>
      | Reference x \<Rightarrow> st\<lparr>populated := (populated st)(x := True)\<rparr>
      | Coll c \<Rightarrow>
          st\<lparr>slots := (slots st)(entity := (slots st entity)(f := Coll (c\<lparr>c_populated := True\<rparr>)))\<rparr>
      | _ \<Rightarrow> st)"

definition innerOrderBy :: "EntityLoaderOptions \<Rightarrow> EntityProperty \<Rightarrow> jv list" where
  "innerOrderBy options prop =
     concat (map (\<lambda>ob. case ob of
                         JObj kv \<Rightarrow>
                           (case map_of kv (prop_name prop) of
                              Some (JObj x) \<Rightarrow> [JObj x]
                            | Some (JArr x) \<Rightarrow> [JArr x]
                            | _ \<Rightarrow> [])
                       | _ \<Rightarrow> [])
               (orderByArray (o_orderBy options)))"

text \<open>The lazy scalar branch of \<^verbatim>\<open>populateMany\<close> (lines 155 to 174).\<close>

definition populateLazyScalar ::
  "env \<Rightarrow> EntityMetadata \<Rightarrow> EntityProperty \<Rightarrow> eid list \<Rightarrow> EntityLoaderOptions \<Rightarrow> state
     \<Rightarrow> (error + eid list) \<times> EntityLoaderOptions \<times> state" where
  "populateLazyScalar env meta prop entities options st =
     (let filtered = filter (\<lambda>e. o_refresh options = Some True \<or> slots st e (prop_name prop) = Undefined)
                       entities
      in if o_ignoreLazyScalarProperties options = Some True \<or> filtered = []
         then (Inr entities, options, st)
         else
           (case mergePrimaryCondition env (unique_jv (map (primaryKeyValues st) filtered))
                   (getPrimaryKeyHash env (primaryKeys meta)) options meta of
              Inl e \<Rightarrow> (Inl e, options, st)
            | Inr cond \<Rightarrow>
                (case callFind env (className meta) cond
                        \<lparr>fo_refresh = None,
                         fo_filters = o_filters options,
                         fo_convertCustomTypes = o_convertCustomTypes options,
                         fo_lockMode = o_lockMode options,
                         fo_populateWhere = o_populateWhere options,
                         fo_orderBy = [],
                         fo_populate = PList [],
                         fo_strategy = o_strategy options,
                         fo_fields = Some [FieldName (prop_name prop)],
                         fo_schema = None,
                         fo_connectionType = o_connectionType options\<rparr> st of
                   (Inl e, st1) \<Rightarrow> (Inl e, options, st1)
                 | (Inr data, st1) \<Rightarrow> (Inr entities, options, st1))))"

definition populateMany ::
  "env \<Rightarrow> MetadataStorage \<Rightarrow> string \<Rightarrow> eid list \<Rightarrow> PopulateOptions \<Rightarrow> EntityLoaderOptions \<Rightarrow> state
     \<Rightarrow> (error + eid list) \<times> EntityLoaderOptions \<times> state" where
  "populateMany env metadata entityName entities populate options st =
     (case find_meta metadata entityName of
        None \<Rightarrow> (Inl TypeError, options, st)
      | Some meta \<Rightarrow>
          (case map_of (properties meta) (p_field populate) of
             None \<Rightarrow> (Inl TypeError, options, st)
           | Some prop \<Rightarrow>
               if reference prop = SCALAR \<and> lazy prop
               then populateLazyScalar env meta prop entities options st
               else if reference prop = EMBEDDED then (Inr [], options, st)
               else
                 (let st1 = fold (setPopulated (p_field populate)) entities st;
                      filtered = filterCollections st1 entities (p_field populate)
                                   (o_refresh options = Some True)
                  in if reference prop = MANY_TO_MANY \<and> usesPivotTable env
                     then findChildrenFromPivotTable env metadata filtered prop options
                            (innerOrderBy options prop) (Some populate) st1
                     else
                       (let ex = extractChildCondition env metadata options prop False;
                            options1 = options\<lparr>o_where := snd ex\<rparr>
                        in case fst ex of
                             Inl e \<Rightarrow> (Inl e, options1, st1)
                           | Inr cond \<Rightarrow>
                               (case findChildren env metadata entities prop populate
                                       (options1\<lparr>o_where := Some cond,
                                                  o_orderBy := Some (JArr (innerOrderBy options prop))\<rparr>)
                                       st1 of
                                  (Inl e, st2) \<Rightarrow> (Inl e, options1, st2)
                                | (Inr data, st2) \<Rightarrow>
                                    (case initializeCollections env metadata filtered prop
                                            (p_field populate) data st2 of
                                       (Some e, st3) \<Rightarrow> (Inl e, options1, st3)
                                     | (None, st3) \<Rightarrow> (Inr data, options1, st3)))))))"

text \<open>
  The entities that \<^verbatim>\<open>populateField\<close> recurses into (lines 297 to 307). An embedded
  property holds \<open>Embedded\<close> values.
\<close>

definition collectChildren :: "state \<Rightarrow> EntityProperty \<Rightarrow> string \<Rightarrow> eid list \<Rightarrow> eid list" where
  "collectChildren st prop f entities =
     concat (map (\<lambda>entity. case slots st entity f of
                              Entity x \<Rightarrow> [x]
                            | Reference x \<Rightarrow> [x]
                            | Coll c \<Rightarrow> c_items c
                            | Embedded xs \<Rightarrow> if reference prop = EMBEDDED then xs else []
                            | _ \<Rightarrow> []) entities)"

text \<open>
  The condition handed to the nested \<^verbatim>\<open>populate\<close> is the object
  \<^verbatim>\<open>options.where[prop.name]\<close> itself when that is a plain object, so what the nested
  call does to its \<^verbatim>\<open>where\<close> shows in the parent's.
\<close>

definition writeBack :: "string \<Rightarrow> dict option \<Rightarrow> dict option \<Rightarrow> dict option" where
  "writeBack n parentWhere childWhere =
     (case parentWhere of
        None \<Rightarrow> None
      | Some w \<Rightarrow>
          (case map_of w n of
             Some (JObj kv) \<Rightarrow>
               (case childWhere of
                  None \<Rightarrow> Some w
                | Some wc \<Rightarrow> Some (AList.update n (JObj wc) w))
           | _ \<Rightarrow> Some w))"

definition childOptions ::
  "EntityLoaderOptions \<Rightarrow> EntityProperty \<Rightarrow> dict \<Rightarrow> EntityField list option \<Rightarrow> EntityLoaderOptions" where
  "childOptions options prop cond flds =
     \<lparr>o_where = Some cond,
      o_populateWhere = o_populateWhere options,
      o_fields = flds,
      o_orderBy = Some (JArr (innerOrderBy options prop)),
      o_refresh = o_refresh options,
      o_validate = Some False,
      o_lookup = Some False,
      o_convertCustomTypes = None,
      o_ignoreLazyScalarProperties = o_ignoreLazyScalarProperties options,
      o_filters = o_filters options,
      o_strategy = None,
      o_lockMode = None,
      o_schema = None,
      o_connectionType = o_connectionType options\<rparr>"

type_synonym outcome = "(error + unit) \<times> EntityLoaderOptions \<times> state"

text \<open>
  \<^verbatim>\<open>populateField\<close>. Its first parameter is the nested call \<^verbatim>\<open>this.populate\<close> of
  line 316.
\<close>

definition populateField ::
  "(string \<Rightarrow> eid list \<Rightarrow> Populate \<Rightarrow> EntityLoaderOptions \<Rightarrow> state \<Rightarrow> outcome)
     \<Rightarrow> env \<Rightarrow> MetadataStorage \<Rightarrow> string \<Rightarrow> eid list \<Rightarrow> PopulateOptions \<Rightarrow> EntityLoaderOptions
     \<Rightarrow> state \<Rightarrow> outcome" where
  "populateField recur env metadata entityName entities populate options st =
     (case find_meta metadata entityName of
        None \<Rightarrow> (Inl TypeError, options, st)
      | Some meta \<Rightarrow>
          (case map_of (properties meta) (p_field populate) of
             None \<Rightarrow> (Inl TypeError, options, st)
           | Some prop \<Rightarrow>
               if reference prop = SCALAR \<and> \<not> lazy prop then (Inr (), options, st)
               else
                 (case populateMany env metadata entityName entities populate options st of
                    (Inl e, o1, st1) \<Rightarrow> (Inl e, o1, st1)
                  | (Inr loaded, o1, st1) \<Rightarrow>
                      (case p_children populate of
                         None \<Rightarrow> (Inr (), o1, st1)
                       | Some cs \<Rightarrow>
                           (case buildFields metadata (o_fields o1) prop of
                              Inl e \<Rightarrow> (Inl e, o1, st1)
                            | Inr flds \<Rightarrow>
                                (let ex = extractChildCondition env metadata o1 prop False;
                                     o2 = o1\<lparr>o_where := snd ex\<rparr>
                                 in case fst ex of
                                      Inl e \<Rightarrow> (Inl e, o2, st1)
                                    | Inr cond \<Rightarrow>
                                        (let r = recur (prop_type prop)
                                                   (unique (collectChildren st1 prop (p_field populate) entities))
                                                   (PList cs) (childOptions o1 prop cond flds) st1
                                         in (fst r,
                                             o2\<lparr>o_where := writeBack (prop_name prop) (o_where o2)
                                                               (o_where (fst (snd r)))\<rparr>,
                                             snd (snd r)))))))))"

subsection \<open>The entry point\<close>

fun isEmptyPopulate :: "Populate \<Rightarrow> bool" where
  "isEmptyPopulate (PBool b) = (\<not> b)"
| "isEmptyPopulate (PList ps) = (ps = [])"

text \<open>Lines 52 to 58: \<^verbatim>\<open>options.x ??= default\<close>.\<close>

definition withDefaults :: "EntityLoaderOptions \<Rightarrow> EntityLoaderOptions" where
  "withDefaults options =
     options\<lparr>o_where := or_else (o_where options) (Some []),
             o_orderBy := or_else (o_orderBy options) (Some (JObj [])),
             o_filters := or_else (o_filters options) (Some (JObj [])),
             o_lookup := or_else (o_lookup options) (Some True),
             o_validate := or_else (o_validate options) (Some True),
             o_refresh := or_else (o_refresh options) (Some False),
             o_convertCustomTypes := or_else (o_convertCustomTypes options) (Some True)\<rparr>"

definition rememberPopulate :: "PopulateOptions list \<Rightarrow> eid \<Rightarrow> state \<Rightarrow> state" where
  "rememberPopulate pops e st =
     st\<lparr>serializationPopulate :=
          (serializationPopulate st)(e := or_else (serializationPopulate st e) (Some pops))\<rparr>"

text \<open>\<^verbatim>\<open>for (const pop of populate) await this.populateField(...)\<close>.\<close>

fun loopFields ::
  "(PopulateOptions \<Rightarrow> EntityLoaderOptions \<Rightarrow> state \<Rightarrow> outcome) \<Rightarrow> PopulateOptions list
     \<Rightarrow> EntityLoaderOptions \<Rightarrow> state \<Rightarrow> outcome" where
  "loopFields f [] options st = (Inr (), options, st)"
| "loopFields f (p # ps) options st =
     (case f p options st of
        (Inl e, o1, st1) \<Rightarrow> (Inl e, o1, st1)
      | (Inr u, o1, st1) \<Rightarrow> loopFields f ps o1 st1)"

text \<open>
  \<^verbatim>\<open>populate\<close>. The first argument bounds how deep the populate hints may nest; a nested
  call beyond it is \<open>Inl OutOfFuel\<close>. The error \<open>NotDiscoveredEntity\<close> carries the entity
  name only.
\<close>

fun populate ::
  "nat \<Rightarrow> env \<Rightarrow> MetadataStorage \<Rightarrow> string \<Rightarrow> eid list \<Rightarrow> Populate \<Rightarrow> EntityLoaderOptions
     \<Rightarrow> state \<Rightarrow> outcome" where
  "populate fuel env metadata entityName entities pop options st =
     (if entities = [] \<or> isEmptyPopulate pop then (Inr (), options, st)
      else if (\<exists>e \<in> set entities. \<not> helper st e)
      then (Inl (NotDiscoveredEntity entityName), options, st)
      else
        (case normalizePopulate metadata entityName pop (o_strategy (withDefaults options))
                (o_lookup (withDefaults options) = Some True) of
           Inl e \<Rightarrow> (Inl e, withDefaults options, st)
         | Inr pops \<Rightarrow>
             (case (if o_validate (withDefaults options) = Some True
                    then find (\<lambda>p. \<not> canPopulate env entityName (p_field p)) pops
                    else None) of
                Some invalid \<Rightarrow>
                  (Inl (InvalidPropertyName entityName (p_field invalid)), withDefaults options, st)
              | None \<Rightarrow>
                  loopFields
                    (populateField
                       (\<lambda>en es p ops s.
                          case fuel of
                            0 \<Rightarrow> (Inl OutOfFuel, ops, s)
                          | Suc n \<Rightarrow> populate n env metadata en es p ops s)
                       env metadata entityName entities)
                    pops (withDefaults options) (fold (rememberPopulate pops) entities st))))"

declare populate.simps [simp del]

section \<open>Properties stated about the loader\<close>


text \<open>
  The batch of the \<^verbatim>\<open>em.find\<close> path: the entities whose keys \<^verbatim>\<open>findChildren\<close>
  looks up (the value of \<^verbatim>\<open>children\<close> at line 254).
\<close>

definition lookupBatch ::
  "env \<Rightarrow> state \<Rightarrow> eid list \<Rightarrow> EntityProperty \<Rightarrow> PopulateOptions \<Rightarrow> bool \<Rightarrow> eid list" where
  "lookupBatch env st entities prop pop refresh =
     (if deferredOneToOne env prop pop
      then filterByReferences st entities (prop_name prop) refresh
      else (case getChildReferences st entities prop refresh of Inl e \<Rightarrow> [] | Inr cs \<Rightarrow> cs))"


definition newFetches :: "state \<Rightarrow> state \<Rightarrow> fetch list" where
  "newFetches st st' = drop (length (fetches st)) (fetches st')"

fun isFind :: "fetch \<Rightarrow> bool" where
  "isFind (Find n c fo) = True"
| "isFind (LoadFromPivotTable pr ids c ob ops flds pops) = False"

subsection \<open>An example schema and store\<close>

text \<open>
  The entities of \<^verbatim>\<open>tests/features/multiple-schemas/GH3177.test.ts\<close>: a \<open>User\<close> has one
  \<open>UserAccessProfile\<close>, which has many \<open>Permission\<close>s through a pivot table. The two
  parameters vary the declared strategy of \<open>User.accessProfile\<close> and whether
  \<open>UserAccessProfile.permissions\<close> is eager.
\<close>

definition relation :: "string \<Rightarrow> string \<Rightarrow> ReferenceType \<Rightarrow> EntityProperty" where
  "relation n t r =
     \<lparr>prop_name = n, prop_type = t, reference = r, lazy = False, eager = False, owner = True,
      mappedBy = [], prop_strategy = None, embedded = None, mapToPk = False, customType = False,
      prop_orderBy = None\<rparr>"

definition entity :: "string \<Rightarrow> EntityProperty list \<Rightarrow> EntityMetadata" where
  "entity n rels =
     \<lparr>meta_name = n, className = n,
      properties = (''id'', relation ''id'' ''number'' SCALAR) # map (\<lambda>r. (prop_name r, r)) rels,
      relations = rels, primaryKeys = [''id'']\<rparr>"

definition userMeta :: "LoadStrategy option \<Rightarrow> EntityMetadata" where
  "userMeta declared =
     entity ''User''
       [(relation ''accessProfile'' ''UserAccessProfile'' MANY_TO_ONE)\<lparr>prop_strategy := declared\<rparr>]"

definition profileMeta :: "bool \<Rightarrow> EntityMetadata" where
  "profileMeta eagerPermissions =
     entity ''UserAccessProfile''
       [(relation ''users'' ''User'' ONE_TO_MANY)\<lparr>owner := False, mappedBy := ''accessProfile''\<rparr>,
        (relation ''permissions'' ''Permission'' MANY_TO_MANY)\<lparr>eager := eagerPermissions\<rparr>]"

definition permissionMeta :: EntityMetadata where
  "permissionMeta =
     entity ''Permission''
       [(relation ''accessProfiles'' ''UserAccessProfile'' MANY_TO_MANY)
          \<lparr>owner := False, mappedBy := ''permissions''\<rparr>]"

definition schemaGH3177 :: "LoadStrategy option \<Rightarrow> bool \<Rightarrow> MetadataStorage" where
  "schemaGH3177 declared eagerPermissions =
     [(''User'', userMeta declared),
      (''UserAccessProfile'', profileMeta eagerPermissions),
      (''Permission'', permissionMeta)]"

text \<open>A self-referencing type whose relation to itself is eager.\<close>

definition schemaTree :: MetadataStorage where
  "schemaTree =
     [(''Node'', entity ''Node'' [(relation ''parent'' ''Node'' MANY_TO_ONE)\<lparr>eager := True\<rparr>])]"

definition hint :: "string \<Rightarrow> PopulateOptions" where
  "hint f = PopulateOptions f None None None"

definition noOptions :: EntityLoaderOptions where
  "noOptions =
     \<lparr>o_where = None, o_populateWhere = None, o_fields = None, o_orderBy = None, o_refresh = None,
      o_validate = None, o_lookup = None, o_convertCustomTypes = None,
      o_ignoreLazyScalarProperties = None, o_filters = None, o_strategy = None, o_lockMode = None,
      o_schema = None, o_connectionType = None\<rparr>"

text \<open>
  Collaborators for the examples: \<^verbatim>\<open>em.find\<close> finds nothing, the pivot table links
  profile \<open>1\<close> to the permissions \<open>11\<close> and \<open>10\<close>, in that order, and a row resolves to the
  entity numbered by its \<open>id\<close>.
\<close>

definition exampleEnv :: env where
  "exampleEnv =
     \<lparr>em_find = (\<lambda>n c fo st. (Inr [], st)),
      loadFromPivotTable =
        (\<lambda>pr ids c ob ops flds pops.
           Inr (if ids = [] then []
                else [(''1'', [[(''id'', JNum 11)], [(''id'', JNum 10)]])])),
      factory_create =
        (\<lambda>t row r sc. case map_of row ''id'' of Some (JNum n) \<Rightarrow> nat n | _ \<Rightarrow> 0),
      canPopulate = (\<lambda>e f. f \<noteq> ''bogus''),
      processWhere = (\<lambda>w n c. w),
      processCustomType = (\<lambda>pr ids. ids),
      applyFilters = (\<lambda>t c f. Inr c),
      getPrimaryKeyHash = join_dot,
      isOperator = (\<lambda>k. k \<in> set [''$eq'', ''$ne'', ''$in'', ''$nin'', ''$gt'', ''$lt'']),
      isPrimaryKey = (\<lambda>v. case v of JNum n \<Rightarrow> True | JStr x \<Rightarrow> True | _ \<Rightarrow> False),
      usesPivotTable = True,
      autoJoinOneToOneOwner = True,
      config_schema = None\<rparr>"

text \<open>
  A store with the access profile \<open>1\<close> and the user \<open>2\<close>. The flag says whether the
  profile is loaded and its \<open>permissions\<close> collection initialized.
\<close>

definition store :: "bool \<Rightarrow> state" where
  "store loaded =
     \<lparr>helper = (\<lambda>e. e = 1 \<or> e = 2),
      initialized = (\<lambda>e. e = 2 \<or> (e = 1 \<and> loaded)),
      populated = (\<lambda>e. False),
      schema_of = (\<lambda>e. None),
      primaryKey = (\<lambda>e. JNum (int e)),
      primaryKeyValues = (\<lambda>e. JNum (int e)),
      primaryKeysOf = (\<lambda>e. [JNum (int e)]),
      serializedPrimaryKey = (\<lambda>e. if e = 1 then ''1'' else ''2''),
      slots = (\<lambda>e f.
                 if e = 1 \<and> f = ''permissions''
                 then Coll \<lparr>c_owner = 1, c_initialized = loaded, c_items = [], c_populated = False\<rparr>
                 else if e = 2 \<and> f = ''accessProfile'' then Reference 1
                 else Undefined),
      serializationPopulate = (\<lambda>e. None),
      fetches = []\<rparr>"


text \<open>
  Two option bags that agree on every member but \<^verbatim>\<open>where\<close>; an empty
  \<^verbatim>\<open>where\<close> stays empty and a defined one stays defined.
\<close>

definition sameExceptWhere :: "EntityLoaderOptions \<Rightarrow> EntityLoaderOptions \<Rightarrow> bool" where
  "sameExceptWhere a b =
     (b = a\<lparr>o_where := o_where b\<rparr>
      \<and> (o_where a = Some [] \<longrightarrow> o_where b = Some [])
      \<and> (o_where a \<noteq> None \<longrightarrow> o_where b \<noteq> None))"

text \<open>The entity type and the condition of a fetch.\<close>

fun fetchCondition :: "fetch \<Rightarrow> string \<times> dict" where
  "fetchCondition (Find n c fo) = (n, c)"
| "fetchCondition (LoadFromPivotTable pr ids c ob ops flds pops) = (prop_type pr, c)"



section \<open>Proofs\<close>

subsection \<open>Loops\<close>

lemma forEach_not_err:
  "(\<And>x s. x \<in> set xs \<Longrightarrow> f x s \<noteq> Inl E) \<Longrightarrow> forEach f xs s \<noteq> Inl E"
  by (induction xs arbitrary: s) (auto split: sum.splits)

lemma mapM_not_err:
  "(\<And>x. x \<in> set xs \<Longrightarrow> f x \<noteq> Inl E) \<Longrightarrow> mapM f xs \<noteq> Inl E"
  by (induction xs) (auto split: sum.splits)

lemma mapM_all_Inr: "(\<And>x. x \<in> set xs \<Longrightarrow> f x = Inr (g x)) \<Longrightarrow> mapM f xs = Inr (map g xs)"
  by (induction xs) auto

lemma forEach_collect:
  "forEach (\<lambda>x ret. case g x of Inl e \<Rightarrow> Inl e | Inr y \<Rightarrow> Inr (ret @ [h y])) xs acc
     = (case mapM g xs of Inl e \<Rightarrow> Inl e | Inr ys \<Rightarrow> Inr (acc @ map h ys))"
  by (induction xs arbitrary: acc) (auto split: sum.splits)

subsection \<open>Relation names and the replacement by all relations\<close>

lemma getRelationName_rec_not_fuel: "getRelationName_rec n meta pr \<noteq> Inl OutOfFuel"
proof (induction n arbitrary: pr)
  case 0
  then show ?case by (simp add: getRelationName_rec.simps split: option.splits prod.splits)
next
  case (Suc n)
  then show ?case
    by (subst getRelationName_rec.simps) (auto split: option.splits prod.splits sum.splits)
qed

lemma getRelationName_plain: "embedded pr = None \<Longrightarrow> getRelationName meta pr = Inr (prop_name pr)"
  by (simp add: getRelationName_def getRelationName_rec.simps)

lemma lookupAll_eq:
  "find_meta metadata entityName = Some meta \<Longrightarrow>
   lookupAllRelationships metadata entityName =
     (case mapM (getRelationName meta) (relations meta) of
        Inl e \<Rightarrow> Inl e
      | Inr names \<Rightarrow> Inr (map (\<lambda>f. PopulateOptions f (Some SELECT_IN) None (Some True)) names))"
  by (simp add: lookupAllRelationships_def forEach_collect split: sum.splits)

lemma lookupAll_not_fuel: "lookupAllRelationships metadata entityName \<noteq> Inl OutOfFuel"
  by (auto simp: lookupAllRelationships_def getRelationName_def getRelationName_rec_not_fuel
      intro!: forEach_not_err split: option.splits sum.splits)

lemma requested_all:
  "pop = PBool True \<or> (\<exists>ps. pop = PList ps \<and> (\<exists>p \<in> set ps. p_all p = Some True)) \<Longrightarrow>
   requestedPopulate metadata entityName pop = lookupAllRelationships metadata entityName"
  by (auto simp: requestedPopulate_def)

lemma requested_not_fuel: "requestedPopulate metadata entityName pop \<noteq> Inl OutOfFuel"
  by (auto simp: requestedPopulate_def lookupAll_not_fuel split: Populate.splits bool.splits)

subsection \<open>Merging\<close>

lemma merge_item_field [simp]: "p_field (merge_item r item) = p_field r"
  by (simp add: merge_item_def split: option.splits)

lemma merge_into_fresh:
  "p_field x \<notin> p_field ` set acc \<Longrightarrow> merge_into acc x = acc @ [x]"
  by (induction acc) auto

lemma foldl_merge_into_distinct:
  "distinct (map p_field (acc @ xs)) \<Longrightarrow> foldl merge_into acc xs = acc @ xs"
proof (induction xs arbitrary: acc)
  case Nil
  then show ?case by simp
next
  case (Cons x xs)
  have fresh: "p_field x \<notin> p_field ` set acc" using Cons.prems by auto
  have "distinct (map p_field ((acc @ [x]) @ xs))" using Cons.prems by simp
  then have "foldl merge_into (acc @ [x]) xs = (acc @ [x]) @ xs" by (rule Cons.IH)
  then show ?case using fresh by (simp add: merge_into_fresh)
qed

lemma merge_childless:
  "distinct (map p_field xs) \<Longrightarrow> \<forall>p \<in> set xs. p_children p = None \<Longrightarrow> mergeNestedPopulate xs = xs"
  using foldl_merge_into_distinct [of "[]" xs]
  by (subst mergeNestedPopulate.simps) (simp add: map_idI)





subsection \<open>Dotted paths\<close>



lemma expandNested_not_fuel: "expandNestedPopulate metadata e parts s a \<noteq> Inl OutOfFuel"
  by (induction metadata e parts s a rule: expandNestedPopulate.induct)
    (auto split: option.splits sum.splits)

lemma expandDotted_not_fuel: "expandDotted metadata e p \<noteq> Inl OutOfFuel"
  by (auto simp: expandDotted_def Let_def expandNested_not_fuel
      split: list.splits option.splits sum.splits)

lemma expandDotted_plain: "\<not> includes_dot (p_field p) \<Longrightarrow> expandDotted metadata e p = Inr p"
  by (simp add: expandDotted_def)

lemma mapM_expand_plain:
  "\<forall>p \<in> set xs. \<not> includes_dot (p_field p) \<Longrightarrow> mapM (expandDotted metadata e) xs = Inr xs"
  using mapM_all_Inr [of xs "expandDotted metadata e" "\<lambda>p. p"] by (simp add: expandDotted_plain)

subsection \<open>Eager lookup\<close>

lemma lookupEager_visited:
  "entityName \<in> set visited \<Longrightarrow>
     lookupEagerLoadedRelationships fuel metadata entityName ps strategy prefix visited = Inr ps"
  by (simp add: lookupEagerLoadedRelationships.simps split: option.splits)

lemma lookupEager_fuel:
  "card (fst ` set metadata - set visited) \<le> fuel \<Longrightarrow>
     lookupEagerLoadedRelationships fuel metadata entityName ps strategy prefix visited \<noteq> Inl OutOfFuel"
proof (induction fuel arbitrary: entityName ps prefix visited)
  case 0
  show ?case
  proof (cases "find_meta metadata entityName")
    case None
    then show ?thesis by (simp add: lookupEagerLoadedRelationships.simps)
  next
    case (Some meta)
    then have mem: "entityName \<in> fst ` set metadata"
      by (auto simp: find_meta_def dest: map_of_SomeD intro: rev_image_eqI)
    show ?thesis
    proof (cases "entityName \<in> set visited")
      case True
      then show ?thesis by (simp add: lookupEager_visited)
    next
      case False
      with mem have "entityName \<in> fst ` set metadata - set visited" by simp
      moreover have "finite (fst ` set metadata - set visited)" by simp
      ultimately have "card (fst ` set metadata - set visited) \<noteq> 0" by (metis card_0_eq empty_iff)
      with 0 show ?thesis by simp
    qed
  qed
next
  case (Suc n)
  show ?case
  proof (cases "find_meta metadata entityName")
    case None
    then show ?thesis by (simp add: lookupEagerLoadedRelationships.simps)
  next
    case (Some meta)
    then have mem: "entityName \<in> fst ` set metadata"
      by (auto simp: find_meta_def dest: map_of_SomeD intro: rev_image_eqI)
    show ?thesis
    proof (cases "entityName \<in> set visited")
      case True
      then show ?thesis by (simp add: lookupEager_visited)
    next
      case False
      have sub: "fst ` set metadata - set (visited @ [entityName])
                  = (fst ` set metadata - set visited) - {entityName}" by auto
      have "card (fst ` set metadata - set (visited @ [entityName])) \<le> n"
        using Suc.prems mem False unfolding sub by simp
      then have rec: "\<And>e p pre. lookupEagerLoadedRelationships n metadata e p strategy pre
                        (visited @ [entityName]) \<noteq> Inl OutOfFuel"
        by (rule Suc.IH)
      show ?thesis
        using Some False
        by (subst lookupEagerLoadedRelationships.simps)
          (auto intro!: forEach_not_err
             simp: getRelationName_def getRelationName_rec_not_fuel rec Let_def
             split: sum.splits if_splits)
    qed
  qed
qed

lemma normalize_not_fuel: "normalizePopulate metadata entityName pop strategy lookup \<noteq> Inl OutOfFuel"
proof -
  have "card (fst ` set metadata - set []) \<le> length metadata"
    using card_image_le [of "set metadata" fst] card_length [of metadata] by simp
  then have le: "lookupEagerLoadedRelationships (length metadata) metadata entityName p0 strategy [] []
               \<noteq> Inl OutOfFuel" for p0
    by (rule lookupEager_fuel)
  have me: "mapM (expandDotted metadata entityName) xs \<noteq> Inl OutOfFuel" for xs
    by (rule mapM_not_err) (rule expandDotted_not_fuel)
  show ?thesis
    by (auto simp: normalizePopulate_def le me requested_not_fuel split: sum.splits if_splits)
qed

section \<open>Claims\<close>

text \<open>
  C6. When the populate request is \<open>true\<close> or contains a node with \<open>all\<close> set,
  normalization replaces it (lines 75 to 79) with exactly one hint per declared relation of the
  entity type, each with strategy \<open>SELECT_IN\<close>, \<open>all: true\<close> and no children. The names are
  those of \<^verbatim>\<open>getRelationName\<close>; for relations outside embeddables they are the property
  names, and when these are dot-free and distinct and eager lookup is off, the list is also
  the result of the whole normalization.
\<close>

theorem all_request_replaced_by_relations:
  assumes "pop = PBool True \<or> (\<exists>ps. pop = PList ps \<and> (\<exists>p \<in> set ps. p_all p = Some True))"
    and "find_meta metadata entityName = Some meta"
  shows "requestedPopulate metadata entityName pop =
           (case mapM (getRelationName meta) (relations meta) of
              Inl e \<Rightarrow> Inl e
            | Inr names \<Rightarrow> Inr (map (\<lambda>f. PopulateOptions f (Some SELECT_IN) None (Some True)) names))
         \<and> ((\<forall>r \<in> set (relations meta). embedded r = None) \<longrightarrow>
              requestedPopulate metadata entityName pop =
                Inr (map (\<lambda>r. PopulateOptions (prop_name r) (Some SELECT_IN) None (Some True))
                       (relations meta)))
         \<and> ((\<forall>r \<in> set (relations meta). embedded r = None \<and> \<not> includes_dot (prop_name r))
              \<and> distinct (map prop_name (relations meta)) \<longrightarrow>
              normalizePopulate metadata entityName pop strategy False =
                Inr (map (\<lambda>r. PopulateOptions (prop_name r) (Some SELECT_IN) None (Some True))
                       (relations meta)))"
proof -
  let ?node = "\<lambda>f. PopulateOptions f (Some SELECT_IN) None (Some True)"
  let ?all = "map (\<lambda>r. ?node (prop_name r)) (relations meta)"
  have req: "requestedPopulate metadata entityName pop = lookupAllRelationships metadata entityName"
    using assms(1) by (rule requested_all)
  have first: "requestedPopulate metadata entityName pop =
           (case mapM (getRelationName meta) (relations meta) of
              Inl e \<Rightarrow> Inl e
            | Inr names \<Rightarrow> Inr (map ?node names))"
    using req lookupAll_eq [OF assms(2)] by simp
  have plain: "requestedPopulate metadata entityName pop = Inr ?all"
    if "\<forall>r \<in> set (relations meta). embedded r = None"
  proof -
    have "mapM (getRelationName meta) (relations meta) = Inr (map prop_name (relations meta))"
      using that by (intro mapM_all_Inr) (simp add: getRelationName_plain)
    then show ?thesis using first by (simp add: comp_def)
  qed
  have full: "normalizePopulate metadata entityName pop strategy False = Inr ?all"
    if h: "\<forall>r \<in> set (relations meta). embedded r = None \<and> \<not> includes_dot (prop_name r)"
      and d: "distinct (map prop_name (relations meta))"
  proof -
    have r: "requestedPopulate metadata entityName pop = Inr ?all" using h plain by simp
    have e: "mapM (expandDotted metadata entityName) ?all = Inr ?all"
      using h by (intro mapM_expand_plain) simp
    have m: "mergeNestedPopulate ?all = ?all"
      using d by (intro merge_childless) (simp_all add: comp_def)
    show ?thesis using r e m by (simp add: normalizePopulate_def)
  qed
  show ?thesis using first plain full by blast
qed

theorem all_request_replaced_by_relations_witness:
  "find_meta (schemaGH3177 None False) ''UserAccessProfile'' = Some (profileMeta False)
   \<and> requestedPopulate (schemaGH3177 None False) ''UserAccessProfile'' (PBool True)
       = Inr [PopulateOptions ''users'' (Some SELECT_IN) None (Some True),
              PopulateOptions ''permissions'' (Some SELECT_IN) None (Some True)]
   \<and> normalizePopulate (schemaGH3177 None False) ''UserAccessProfile'' (PBool True) None False
       = Inr [PopulateOptions ''users'' (Some SELECT_IN) None (Some True),
              PopulateOptions ''permissions'' (Some SELECT_IN) None (Some True)]"
proof -
  have h: "find_meta (schemaGH3177 None False) ''UserAccessProfile'' = Some (profileMeta False)"
    by (simp add: find_meta_def schemaGH3177_def)
  have rels: "relations (profileMeta False) =
      [(relation ''users'' ''User'' ONE_TO_MANY)\<lparr>owner := False, mappedBy := ''accessProfile''\<rparr>,
       (relation ''permissions'' ''Permission'' MANY_TO_MANY)\<lparr>eager := False\<rparr>]"
    by (simp add: profileMeta_def entity_def)
  from all_request_replaced_by_relations
         [of "PBool True" "schemaGH3177 None False" "''UserAccessProfile''" "profileMeta False" None]
  show ?thesis using h by (simp add: rels relation_def includes_dot_def getRelationName_plain)
qed

text \<open>
  C7. For every metadata storage, cyclic or not, the eager-relationship lookup terminates: a
  depth bound of the number of registered entity types is never reached, so the
  normalization never runs out of it. An entity type that is already in the visited list is
  not expanded: the lookup returns the hints it was given.
\<close>

theorem eager_lookup_terminates:
  "(card (fst ` set metadata - set visited) \<le> fuel \<longrightarrow>
      lookupEagerLoadedRelationships fuel metadata entityName ps strategy prefix visited
        \<noteq> Inl OutOfFuel)
   \<and> (entityName \<in> set visited \<longrightarrow>
      lookupEagerLoadedRelationships fuel metadata entityName ps strategy prefix visited = Inr ps)
   \<and> normalizePopulate metadata entityName pop strategy lookup \<noteq> Inl OutOfFuel"
  using lookupEager_fuel [of metadata visited fuel entityName ps strategy prefix]
    lookupEager_visited [of entityName visited fuel metadata ps strategy prefix]
    normalize_not_fuel [of metadata entityName pop strategy lookup]
  by blast

theorem eager_lookup_terminates_witness:
  "card (fst ` set schemaTree - set []) \<le> length schemaTree
   \<and> lookupEagerLoadedRelationships (length schemaTree) schemaTree ''Node'' [] None [] []
       \<noteq> Inl OutOfFuel
   \<and> lookupEagerLoadedRelationships (length schemaTree) schemaTree ''Node'' [] None [] []
       = Inr [PopulateOptions ''parent'' None None None]
   \<and> ''Node'' \<in> set [''Node'']
   \<and> lookupEagerLoadedRelationships 0 schemaTree ''Node'' [] None ''parent'' [''Node''] = Inr []
   \<and> normalizePopulate schemaTree ''Node'' (PBool True) None True \<noteq> Inl OutOfFuel
   \<and> normalizePopulate schemaTree ''Node'' (PBool True) None True
       = Inr [PopulateOptions ''parent'' (Some SELECT_IN) None (Some True)]"
proof -
  have c: "card (fst ` set schemaTree - set []) \<le> length schemaTree"
    by (simp add: schemaTree_def)
  have v: "''Node'' \<in> set [''Node'']" by simp
  have e1: "lookupEagerLoadedRelationships (length schemaTree) schemaTree ''Node'' [] None [] []
              = Inr [PopulateOptions ''parent'' None None None]"
    by code_simp
  have e2: "normalizePopulate schemaTree ''Node'' (PBool True) None True
              = Inr [PopulateOptions ''parent'' (Some SELECT_IN) None (Some True)]"
    by code_simp
  from eager_lookup_terminates
         [of schemaTree "[]" "length schemaTree" "''Node''" "[]" None "[]" "PBool True" True]
    eager_lookup_terminates
         [of schemaTree "[''Node'']" 0 "''Node''" "[]" None "''parent''" "PBool True" True]
  show ?thesis using c v e1 e2 by simp
qed




text \<open>
  C9. For a populate hint whose field is a \<open>SCALAR\<close> property that is not lazy,
  \<^verbatim>\<open>populateField\<close> returns at once: no error, and the options, the entities and the
  list of fetches are as they were, whatever the options say about validation.
\<close>

theorem populateField_plain_scalar:
  assumes "find_meta metadata entityName = Some meta"
    and "map_of (properties meta) (p_field pop) = Some pr"
    and "reference pr = SCALAR" and "\<not> lazy pr"
  shows "populateField recur env metadata entityName entities pop options st = (Inr (), options, st)"
  using assms by (simp add: populateField_def)

theorem populateField_plain_scalar_witness:
  "find_meta (schemaGH3177 None False) ''User'' = Some (userMeta None)
   \<and> reference (relation ''id'' ''number'' SCALAR) = SCALAR
   \<and> \<not> lazy (relation ''id'' ''number'' SCALAR)
   \<and> populateField (populate 3 exampleEnv (schemaGH3177 None False)) exampleEnv
        (schemaGH3177 None False) ''User'' [2] (hint ''id'')
        (noOptions\<lparr>o_validate := Some True\<rparr>) (store False)
       = (Inr (), noOptions\<lparr>o_validate := Some True\<rparr>, store False)"
proof -
  have h1: "find_meta (schemaGH3177 None False) ''User'' = Some (userMeta None)"
    by (simp add: find_meta_def schemaGH3177_def)
  have h2: "map_of (properties (userMeta None)) (p_field (hint ''id''))
              = Some (relation ''id'' ''number'' SCALAR)"
    by (simp add: userMeta_def entity_def hint_def)
  have h3: "reference (relation ''id'' ''number'' SCALAR) = SCALAR" by (simp add: relation_def)
  have h4: "\<not> lazy (relation ''id'' ''number'' SCALAR)" by (simp add: relation_def)
  from populateField_plain_scalar [OF h1 h2 h3 h4]
  show ?thesis using h1 h3 h4 by simp
qed

subsection \<open>Which errors the parts of the loader can raise\<close>

text \<open>
  \<open>InvalidPropertyName\<close> is raised by the validation of \<^verbatim>\<open>populate\<close> and by nothing
  else.
\<close>

lemma forEachS_not_err:
  "(\<And>x s. f x s \<noteq> Inl E) \<Longrightarrow> forEachS f xs s \<noteq> (Some E, s')"
  by (induction xs arbitrary: s) (auto split: sum.splits)

lemma getRelationName_rec_valid: "getRelationName_rec k meta pr \<noteq> Inl (InvalidPropertyName n f)"
proof (induction k arbitrary: pr)
  case 0
  then show ?case by (simp add: getRelationName_rec.simps split: option.splits prod.splits)
next
  case (Suc k)
  then show ?case
    by (subst getRelationName_rec.simps) (auto split: option.splits prod.splits sum.splits)
qed

lemma lookupAll_valid: "lookupAllRelationships metadata entityName \<noteq> Inl (InvalidPropertyName n f)"
  by (auto simp: lookupAllRelationships_def getRelationName_def getRelationName_rec_valid
      intro!: forEach_not_err split: option.splits sum.splits)

lemma requested_valid: "requestedPopulate metadata entityName pop \<noteq> Inl (InvalidPropertyName n f)"
  by (auto simp: requestedPopulate_def lookupAll_valid split: Populate.splits bool.splits)

lemma lookupEager_valid:
  "lookupEagerLoadedRelationships fuel metadata entityName ps strategy prefix visited
     \<noteq> Inl (InvalidPropertyName n f)"
proof (induction fuel arbitrary: entityName ps prefix visited)
  case 0
  then show ?case
    by (simp add: lookupEagerLoadedRelationships.simps split: option.splits)
next
  case (Suc k)
  show ?case
    by (subst lookupEagerLoadedRelationships.simps)
      (auto intro!: forEach_not_err
         simp: getRelationName_def getRelationName_rec_valid Suc.IH Let_def
         split: sum.splits if_splits option.splits)
qed

lemma expandNested_valid:
  "expandNestedPopulate metadata e parts s a \<noteq> Inl (InvalidPropertyName n f)"
  by (induction metadata e parts s a rule: expandNestedPopulate.induct)
    (auto split: option.splits sum.splits)

lemma expandDotted_valid: "expandDotted metadata e p \<noteq> Inl (InvalidPropertyName n f)"
  by (auto simp: expandDotted_def Let_def expandNested_valid
      split: list.splits option.splits sum.splits)

lemma normalize_valid:
  "normalizePopulate metadata entityName pop strategy lookup \<noteq> Inl (InvalidPropertyName n f)"
proof -
  have me: "mapM (expandDotted metadata entityName) xs \<noteq> Inl (InvalidPropertyName n f)" for xs
    by (rule mapM_not_err) (rule expandDotted_valid)
  show ?thesis
    by (auto simp: normalizePopulate_def lookupEager_valid me requested_valid
        split: sum.splits if_splits)
qed

lemma mergePrimaryCondition_valid:
  "mergePrimaryCondition env ids pk options meta \<noteq> Inl (InvalidPropertyName n f)"
  by (auto simp: mergePrimaryCondition_def Let_def split: option.splits)

lemma childConditions_valid: "childConditions env nm pk v \<noteq> Inl (InvalidPropertyName n f)"
proof -
  have "mapM (\<lambda>cond. case cond of JNull \<Rightarrow> Inl TypeError | JObj kv \<Rightarrow> Inr (map_of kv nm)
                      | _ \<Rightarrow> Inr None) conds \<noteq> Inl (InvalidPropertyName n f)" for conds
    by (rule mapM_not_err) (auto split: jv.splits)
  then show ?thesis
    by (auto simp: childConditions_def split: jv.splits sum.splits)
qed

lemma groupStep_valid: "groupStep env w nm pk op subCond \<noteq> Inl (InvalidPropertyName n f)"
  by (auto simp: groupStep_def childConditions_valid split: option.splits sum.splits)

lemma operatorStep_valid: "operatorStep pk op subCond \<noteq> Inl (InvalidPropertyName n f)"
  by (auto simp: operatorStep_def Let_def split: option.splits jv.splits)

lemma extractChildCondition_valid:
  "extractChildCondition env metadata options pr filters \<noteq> (Inl (InvalidPropertyName n f), w')"
proof -
  have g: "forEachS (groupStep env w nm pk) xs s \<noteq> (Some (InvalidPropertyName n f), s')"
    for w nm pk xs s s'
    by (rule forEachS_not_err) (rule groupStep_valid)
  have o: "forEachS (operatorStep pk) xs s \<noteq> (Some (InvalidPropertyName n f), s')"
    for pk xs s s'
    by (rule forEachS_not_err) (rule operatorStep_valid)
  show ?thesis
    by (auto simp: extractChildCondition_def Let_def g o groupStep_valid operatorStep_valid
        split: option.splits prod.splits sum.splits)
qed

lemma buildFields_valid: "buildFields metadata flds pr \<noteq> Inl (InvalidPropertyName n f)"
  by (auto simp: buildFields_def Let_def split: option.splits)

lemma getChildReferences_valid:
  "getChildReferences st entities pr refresh \<noteq> Inl (InvalidPropertyName n f)"
proof -
  have a: "mapM (\<lambda>e. case slots st e (prop_name pr) of Coll c \<Rightarrow> Inr (c_owner c) | _ \<Rightarrow> Inl TypeError) xs
             \<noteq> Inl (InvalidPropertyName n f)" for xs
    by (rule mapM_not_err) (auto split: slot.splits)
  have b: "mapM (\<lambda>e. case slots st e (prop_name pr) of Coll c \<Rightarrow> Inr (c_items c) | _ \<Rightarrow> Inl TypeError) xs
             \<noteq> Inl (InvalidPropertyName n f)" for xs
    by (rule mapM_not_err) (auto split: slot.splits)
  show ?thesis
    by (auto simp: getChildReferences_def Let_def a b split: sum.splits)
qed

lemma callFind_valid: "callFind env nm c fo st \<noteq> (Inl (InvalidPropertyName n f), st')"
  by (auto simp: callFind_def Let_def split: sum.splits)

lemma batchKey_valid: "batchKey env meta pr pop \<noteq> Inl (InvalidPropertyName n f)"
  by (auto simp: batchKey_def split: option.splits)

lemma findChildren_valid:
  "findChildren env metadata entities pr pop options st \<noteq> (Inl (InvalidPropertyName n f), st')"
  by (auto simp: findChildren_def Let_def getChildReferences_valid batchKey_valid
      mergePrimaryCondition_valid buildFields_valid callFind_valid
      split: sum.splits option.splits)

lemma hydrate_valid: "hydrate e fld items st \<noteq> Inl (InvalidPropertyName n f)"
  by (auto simp: hydrate_def split: slot.splits)

lemma initializeCollections_valid:
  "initializeCollections env metadata filtered pr fld children st \<noteq> (Some (InvalidPropertyName n f), st')"
proof -
  have a: "initializeOneToMany metadata filtered children pr fld s \<noteq> (Some (InvalidPropertyName n f), s')"
    for s s'
    unfolding initializeOneToMany_def
    by (rule forEachS_not_err) (auto simp: hydrate_valid split: sum.splits option.splits if_splits)
  have m: "mapM (\<lambda>child. case slots s child (mappedBy pr) of
                           Coll c \<Rightarrow> Inr (if entity \<in> set (c_items c) then [child] else [])
                         | _ \<Rightarrow> Inl TypeError) xs \<noteq> Inl (InvalidPropertyName n f)"
    for s :: state and entity xs
    by (rule mapM_not_err) (auto split: slot.splits)
  have b: "initializeManyToMany filtered children pr fld s \<noteq> (Some (InvalidPropertyName n f), s')"
    for s s'
    unfolding initializeManyToMany_def
    by (rule forEachS_not_err) (auto simp: hydrate_valid m split: sum.splits)
  show ?thesis
    by (auto simp: initializeCollections_def a b split: prod.splits option.splits if_splits)
qed

lemma findChildrenFromPivotTable_valid:
  "findChildrenFromPivotTable env metadata filtered pr options ob pop st
     \<noteq> (Inl (InvalidPropertyName n f), o', st')"
proof -
  have h: "forEachS (hydrateFromPivot env pr options pm) xs cs \<noteq> (Some (InvalidPropertyName n f), cs')"
    for pm xs cs cs'
    by (rule forEachS_not_err)
      (auto simp: hydrateFromPivot_def Let_def hydrate_valid split: option.splits sum.splits)
  have x: "fst (extractChildCondition env metadata options pr True) \<noteq> Inl (InvalidPropertyName n f)"
    using extractChildCondition_valid [of env metadata options pr True n f]
    by (metis prod.collapse)
  show ?thesis
    by (auto simp: findChildrenFromPivotTable_def Let_def h x
        buildFields_valid split: sum.splits prod.splits option.splits)
qed

lemma populateLazyScalar_valid:
  "populateLazyScalar env meta pr entities options st \<noteq> (Inl (InvalidPropertyName n f), o', st')"
  by (auto simp: populateLazyScalar_def Let_def mergePrimaryCondition_valid callFind_valid
      split: sum.splits prod.splits)

lemma populateMany_valid:
  "populateMany env metadata entityName entities pop options st
     \<noteq> (Inl (InvalidPropertyName n f), o', st')"
proof -
  have x: "fst (extractChildCondition env metadata options pr False) \<noteq> Inl (InvalidPropertyName n f)"
    for pr
    using extractChildCondition_valid [of env metadata options pr False n f]
    by (metis prod.collapse)
  show ?thesis
    by (auto simp: populateMany_def Let_def populateLazyScalar_valid
        findChildrenFromPivotTable_valid x findChildren_valid initializeCollections_valid
        split: option.splits sum.splits prod.splits)
qed

lemma populateField_valid:
  assumes "\<And>en es p ops s o' s'. o_validate ops = Some False \<Longrightarrow>
             recur en es p ops s \<noteq> (Inl (InvalidPropertyName n f), o', s')"
  shows "populateField recur env metadata entityName entities pop options st
           \<noteq> (Inl (InvalidPropertyName n f), o', st')"
proof -
  have x: "fst (extractChildCondition env metadata ops pr False) \<noteq> Inl (InvalidPropertyName n f)"
    for pr ops
    using extractChildCondition_valid [of env metadata ops pr False n f]
    by (metis prod.collapse)
  have r: "fst (recur en es p (childOptions ops pr c flds) s) \<noteq> Inl (InvalidPropertyName n f)"
    for en es p ops pr c flds s
    using assms [of "childOptions ops pr c flds" en es p s]
    by (metis childOptions_def EntityLoaderOptions.select_convs(6) prod.collapse)
  show ?thesis
    by (auto simp: populateField_def Let_def populateMany_valid buildFields_valid x r
        split: option.splits sum.splits prod.splits)
qed

lemma loopFields_valid:
  assumes "\<And>p ops s o' s'. g p ops s \<noteq> (Inl E, o', s')"
  shows "loopFields g ps options st \<noteq> (Inl E, o', st')"
  using assms by (induction ps arbitrary: options st) (auto split: prod.splits sum.splits)

lemma populate_valid:
  "o_validate options = Some False \<Longrightarrow>
     populate fuel env metadata entityName entities pop options st
       \<noteq> (Inl (InvalidPropertyName n f), o', st')"
proof (induction fuel arbitrary: entityName entities pop options st o' st')
  case 0
  have v: "o_validate (withDefaults options) = Some False"
    using 0 by (simp add: withDefaults_def or_else_def)
  show ?case
    by (subst populate.simps)
      (auto simp: v normalize_valid intro!: loopFields_valid populateField_valid
         split: sum.splits)
next
  case (Suc k)
  have v: "o_validate (withDefaults options) = Some False"
    using Suc.prems by (simp add: withDefaults_def or_else_def)
  show ?case
    by (subst populate.simps)
      (auto simp: v normalize_valid Suc.IH intro!: loopFields_valid populateField_valid
         split: sum.splits)
qed

text \<open>
  C4. When the normalized populate hints contain a field that the entity manager cannot
  populate, a call with validation on (the default) fails with \<open>InvalidPropertyName\<close> for
  the first such field, and the store, with its list of fetches, is as it was. With
  validation explicitly off, no call ever fails with \<open>InvalidPropertyName\<close>.
\<close>

theorem populate_rejects_invalid_field:
  assumes "entities \<noteq> []" and "\<not> isEmptyPopulate pop" and "\<forall>e \<in> set entities. helper st e"
    and "normalizePopulate metadata entityName pop (o_strategy options)
           (o_lookup options \<noteq> Some False) = Inr specs"
    and "find (\<lambda>p. \<not> canPopulate env entityName (p_field p)) specs = Some invalid"
  shows "(o_validate options \<noteq> Some False \<longrightarrow>
            populate fuel env metadata entityName entities pop options st
              = (Inl (InvalidPropertyName entityName (p_field invalid)), withDefaults options, st))
       \<and> (o_validate options = Some False \<longrightarrow>
            fst (populate fuel env metadata entityName entities pop options st)
              \<noteq> Inl (InvalidPropertyName n f))"
proof -
  have s: "o_strategy (withDefaults options) = o_strategy options"
    by (simp add: withDefaults_def)
  have l: "(o_lookup (withDefaults options) = Some True) = (o_lookup options \<noteq> Some False)"
    by (cases "o_lookup options") (auto simp: withDefaults_def or_else_def)
  have v: "(o_validate (withDefaults options) = Some True) = (o_validate options \<noteq> Some False)"
    by (cases "o_validate options") (auto simp: withDefaults_def or_else_def)
  have on: "populate fuel env metadata entityName entities pop options st
              = (Inl (InvalidPropertyName entityName (p_field invalid)), withDefaults options, st)"
    if "o_validate options \<noteq> Some False"
    using assms that by (subst populate.simps) (simp add: s l v)
  have off: "fst (populate fuel env metadata entityName entities pop options st)
               \<noteq> Inl (InvalidPropertyName n f)"
    if "o_validate options = Some False"
    using populate_valid [OF that, of fuel env metadata entityName entities pop st n f]
    by (metis prod.collapse)
  show ?thesis using on off by blast
qed

theorem populate_rejects_invalid_field_witness:
  "[2] \<noteq> ([] :: eid list) \<and> \<not> isEmptyPopulate (PList [hint ''accessProfile'', hint ''bogus''])
   \<and> helper (store False) 2
   \<and> o_validate noOptions \<noteq> Some False
   \<and> populate 3 exampleEnv (schemaGH3177 None False) ''User'' [2]
        (PList [hint ''accessProfile'', hint ''bogus'']) noOptions (store False)
       = (Inl (InvalidPropertyName ''User'' ''bogus''), withDefaults noOptions, store False)
   \<and> fetches (store False) = []
   \<and> fst (populate 3 exampleEnv (schemaGH3177 None False) ''User'' [2]
        (PList [hint ''accessProfile'', hint ''bogus'']) (noOptions\<lparr>o_validate := Some False\<rparr>)
        (store False)) \<noteq> Inl (InvalidPropertyName ''User'' ''bogus'')"
proof -
  have h1: "[2] \<noteq> ([] :: eid list)" by simp
  have h2: "\<not> isEmptyPopulate (PList [hint ''accessProfile'', hint ''bogus''])" by simp
  have h3: "\<forall>e \<in> set [2]. helper (store False) e" by (simp add: store_def)
  have h4: "normalizePopulate (schemaGH3177 None False) ''User''
              (PList [hint ''accessProfile'', hint ''bogus'']) (o_strategy noOptions)
              (o_lookup noOptions \<noteq> Some False) = Inr [hint ''accessProfile'', hint ''bogus'']"
    by code_simp
  have h5: "find (\<lambda>p. \<not> canPopulate exampleEnv ''User'' (p_field p))
              [hint ''accessProfile'', hint ''bogus''] = Some (hint ''bogus'')"
    by (simp add: exampleEnv_def hint_def)
  have h4': "normalizePopulate (schemaGH3177 None False) ''User''
              (PList [hint ''accessProfile'', hint ''bogus'']) (o_strategy (noOptions\<lparr>o_validate := Some False\<rparr>))
              (o_lookup (noOptions\<lparr>o_validate := Some False\<rparr>) \<noteq> Some False)
               = Inr [hint ''accessProfile'', hint ''bogus'']"
    using h4 by (simp add: noOptions_def)
  from populate_rejects_invalid_field [OF h1 h2 h3 h4 h5, of 3 "''User''" "''bogus''"]
    populate_rejects_invalid_field [OF h1 h2 h3 h4' h5, of 3 "''User''" "''bogus''"]
  show ?thesis using h3 by (simp add: noOptions_def hint_def store_def)
qed

subsection \<open>What the loader does to the options\<close>

lemma sameExceptWhere_refl: "sameExceptWhere a a"
  by (simp add: sameExceptWhere_def)

lemma sameExceptWhere_trans:
  "sameExceptWhere a b \<Longrightarrow> sameExceptWhere b c \<Longrightarrow> sameExceptWhere a c"
  unfolding sameExceptWhere_def
  by (metis (no_types, lifting) EntityLoaderOptions.surjective EntityLoaderOptions.update_convs(1))

lemma sameExceptWhere_update:
  "(o_where a = Some [] \<longrightarrow> w = Some []) \<Longrightarrow> (o_where a \<noteq> None \<longrightarrow> w \<noteq> None)
     \<Longrightarrow> sameExceptWhere a (a\<lparr>o_where := w\<rparr>)"
  by (simp add: sameExceptWhere_def)

lemma extractChildCondition_where:
  "(o_where options = Some [] \<longrightarrow> snd (extractChildCondition env metadata options pr fl) = Some [])
   \<and> (o_where options \<noteq> None \<longrightarrow> snd (extractChildCondition env metadata options pr fl) \<noteq> None)"
  by (auto simp: extractChildCondition_def Let_def
      split: option.splits prod.splits sum.splits jv.splits)

lemma extractChildCondition_same:
  "sameExceptWhere options (options\<lparr>o_where := snd (extractChildCondition env metadata options pr fl)\<rparr>)"
  using extractChildCondition_where [of options env metadata pr fl]
  by (intro sameExceptWhere_update) blast+

lemma findChildrenFromPivotTable_same:
  "sameExceptWhere options (fst (snd (findChildrenFromPivotTable env metadata filtered pr options ob pop st)))"
  using extractChildCondition_same [of options env metadata pr True]
  by (auto simp: findChildrenFromPivotTable_def Let_def split: sum.splits prod.splits option.splits)

lemma populateLazyScalar_same:
  "fst (snd (populateLazyScalar env meta pr entities options st)) = options"
  by (auto simp: populateLazyScalar_def Let_def split: sum.splits prod.splits)

lemma populateMany_same:
  "sameExceptWhere options (fst (snd (populateMany env metadata entityName entities pop options st)))"
  using extractChildCondition_same [of options env metadata _ False]
  by (auto simp: populateMany_def Let_def sameExceptWhere_refl populateLazyScalar_same
      findChildrenFromPivotTable_same
      split: option.splits sum.splits prod.splits)

lemma writeBack_where:
  "(w = Some [] \<longrightarrow> writeBack nm w cw = Some []) \<and> (w \<noteq> None \<longrightarrow> writeBack nm w cw \<noteq> None)"
  by (auto simp: writeBack_def split: option.splits jv.splits)

lemma populateField_same:
  "sameExceptWhere options
     (fst (snd (populateField recur env metadata entityName entities pop options st)))"
proof -
  have step: "sameExceptWhere options
                (o1\<lparr>o_where := writeBack nm (snd (extractChildCondition env metadata o1 pr False)) cw\<rparr>)"
    if "sameExceptWhere options o1" for o1 pr nm cw
  proof -
    let ?o2 = "o1\<lparr>o_where := snd (extractChildCondition env metadata o1 pr False)\<rparr>"
    have a: "sameExceptWhere o1 ?o2" by (rule extractChildCondition_same)
    have b: "sameExceptWhere ?o2 (?o2\<lparr>o_where := writeBack nm (o_where ?o2) cw\<rparr>)"
      using writeBack_where [of "o_where ?o2" nm cw] by (intro sameExceptWhere_update) blast+
    have "sameExceptWhere options (?o2\<lparr>o_where := writeBack nm (o_where ?o2) cw\<rparr>)"
      using that a b sameExceptWhere_trans by blast
    then show ?thesis by simp
  qed
  have pm: "sameExceptWhere options o1"
    if "populateMany env metadata entityName entities pop options st = (r, o1, st1)" for r o1 st1
    using populateMany_same [of options env metadata entityName entities pop st] that by simp
  have ex: "sameExceptWhere options (o1\<lparr>o_where := snd (extractChildCondition env metadata o1 pr False)\<rparr>)"
    if "sameExceptWhere options o1" for o1 pr
    using that extractChildCondition_same sameExceptWhere_trans by blast
  show ?thesis
    by (auto simp: populateField_def Let_def sameExceptWhere_refl
        dest!: pm intro: step ex
        split: option.splits sum.splits prod.splits)
qed

lemma loopFields_same:
  assumes "\<And>p ops s. sameExceptWhere ops (fst (snd (g p ops s)))"
  shows "sameExceptWhere options (fst (snd (loopFields g ps options st)))"
proof (induction ps arbitrary: options st)
  case Nil
  then show ?case by (simp add: sameExceptWhere_refl)
next
  case (Cons p ps)
  obtain r o1 st1 where g: "g p options st = (r, o1, st1)" by (cases "g p options st") auto
  have a: "sameExceptWhere options o1" using assms [of options p st] g by simp
  show ?case
  proof (cases r)
    case (Inl e)
    then show ?thesis using g a by simp
  next
    case (Inr u)
    have "sameExceptWhere o1 (fst (snd (loopFields g ps o1 st1)))" by (rule Cons.IH)
    then show ?thesis using g a Inr sameExceptWhere_trans by auto
  qed
qed

lemma populate_same:
  assumes "entities \<noteq> []" and "\<not> isEmptyPopulate pop" and "\<forall>e \<in> set entities. helper st e"
  shows "sameExceptWhere (withDefaults options)
           (fst (snd (populate fuel env metadata entityName entities pop options st)))"
  using assms
  by (subst populate.simps)
    (auto simp: sameExceptWhere_refl intro!: loopFields_same populateField_same
       split: sum.splits option.splits)

text \<open>
  C10 (as the code has it). After a call with entities and a populate request, all of them
  tracked, the options hold the defaults of lines 52 to 58 for \<^verbatim>\<open>orderBy\<close>,
  \<^verbatim>\<open>filters\<close>, \<^verbatim>\<open>lookup\<close>, \<^verbatim>\<open>validate\<close>, \<^verbatim>\<open>refresh\<close> and
  \<^verbatim>\<open>convertCustomTypes\<close> where the caller left them undefined and the caller's values
  otherwise; the other members are as the caller set them. An undefined \<^verbatim>\<open>where\<close> has
  become \<open>{}\<close>; a \<^verbatim>\<open>where\<close> the caller gave is still there (the extraction of child
  conditions may have rewritten it in place).
\<close>

theorem populate_defaults:
  assumes "entities \<noteq> []" and "\<not> isEmptyPopulate pop" and "\<forall>e \<in> set entities. helper st e"
    and "options' = fst (snd (populate fuel env metadata entityName entities pop options st))"
  shows "o_orderBy options' = (case o_orderBy options of None \<Rightarrow> Some (JObj []) | Some v \<Rightarrow> Some v)
       \<and> o_filters options' = (case o_filters options of None \<Rightarrow> Some (JObj []) | Some v \<Rightarrow> Some v)
       \<and> o_lookup options' = (case o_lookup options of None \<Rightarrow> Some True | Some v \<Rightarrow> Some v)
       \<and> o_validate options' = (case o_validate options of None \<Rightarrow> Some True | Some v \<Rightarrow> Some v)
       \<and> o_refresh options' = (case o_refresh options of None \<Rightarrow> Some False | Some v \<Rightarrow> Some v)
       \<and> o_convertCustomTypes options'
           = (case o_convertCustomTypes options of None \<Rightarrow> Some True | Some v \<Rightarrow> Some v)
       \<and> (o_where options = None \<longrightarrow> o_where options' = Some [])
       \<and> (o_where options \<noteq> None \<longrightarrow> o_where options' \<noteq> None)
       \<and> o_populateWhere options' = o_populateWhere options
       \<and> o_fields options' = o_fields options
       \<and> o_ignoreLazyScalarProperties options' = o_ignoreLazyScalarProperties options
       \<and> o_strategy options' = o_strategy options
       \<and> o_lockMode options' = o_lockMode options
       \<and> o_schema options' = o_schema options
       \<and> o_connectionType options' = o_connectionType options"
proof -
  have s: "sameExceptWhere (withDefaults options) options'"
    unfolding assms(4) using assms(1,2,3) by (rule populate_same)
  then have eq: "options' = (withDefaults options)\<lparr>o_where := o_where options'\<rparr>"
    and e: "o_where (withDefaults options) = Some [] \<longrightarrow> o_where options' = Some []"
    and d: "o_where (withDefaults options) \<noteq> None \<longrightarrow> o_where options' \<noteq> None"
    by (simp_all add: sameExceptWhere_def)
  have w1: "o_where options = None \<longrightarrow> o_where options' = Some []"
    using e by (simp add: withDefaults_def or_else_def)
  have w2: "o_where options \<noteq> None \<longrightarrow> o_where options' \<noteq> None"
    using d by (auto simp: withDefaults_def or_else_def)
  have rest: "o_orderBy options' = o_orderBy (withDefaults options)"
    "o_filters options' = o_filters (withDefaults options)"
    "o_lookup options' = o_lookup (withDefaults options)"
    "o_validate options' = o_validate (withDefaults options)"
    "o_refresh options' = o_refresh (withDefaults options)"
    "o_convertCustomTypes options' = o_convertCustomTypes (withDefaults options)"
    "o_populateWhere options' = o_populateWhere (withDefaults options)"
    "o_fields options' = o_fields (withDefaults options)"
    "o_ignoreLazyScalarProperties options' = o_ignoreLazyScalarProperties (withDefaults options)"
    "o_strategy options' = o_strategy (withDefaults options)"
    "o_lockMode options' = o_lockMode (withDefaults options)"
    "o_schema options' = o_schema (withDefaults options)"
    "o_connectionType options' = o_connectionType (withDefaults options)"
    by (subst eq, simp)+
  show ?thesis
    using w1 w2 unfolding rest by (simp add: withDefaults_def or_else_def)
qed

theorem populate_defaults_witness:
  "[2] \<noteq> ([] :: eid list) \<and> \<not> isEmptyPopulate (PList [hint ''accessProfile''])
   \<and> helper (store False) 2
   \<and> fst (snd (populate 3 exampleEnv (schemaGH3177 None False) ''User'' [2]
                  (PList [hint ''accessProfile'']) (noOptions\<lparr>o_refresh := Some True\<rparr>) (store False)))
       = noOptions\<lparr>o_where := Some [], o_orderBy := Some (JObj []), o_filters := Some (JObj []),
                    o_lookup := Some True, o_validate := Some True, o_refresh := Some True,
                    o_convertCustomTypes := Some True\<rparr>"
proof -
  have h1: "[2] \<noteq> ([] :: eid list)" by simp
  have h2: "\<not> isEmptyPopulate (PList [hint ''accessProfile''])" by simp
  have h3: "\<forall>e \<in> set [2]. helper (store False) e" by (simp add: store_def)
  from populate_defaults [OF h1 h2 h3 refl, of 3 exampleEnv "schemaGH3177 None False" "''User''"
      "noOptions\<lparr>o_refresh := Some True\<rparr>"]
  show ?thesis using h3 by (simp add: noOptions_def EntityLoaderOptions.equality)
qed

theorem populate_defaults_counterexample:
  "[5] \<noteq> ([] :: eid list) \<and> \<not> isEmptyPopulate (PList [hint ''accessProfile''])
   \<and> o_where noOptions = None
   \<and> o_where (fst (snd (populate 3 exampleEnv (schemaGH3177 None False) ''User'' [5]
                            (PList [hint ''accessProfile'']) noOptions (store False)))) \<noteq> Some []"
  by (simp add: populate.simps store_def noOptions_def)

subsection \<open>The populated flags do not change which parents need loading\<close>

lemma setPopulated_slots:
  "slots (setPopulated f x st) e g =
     (case slots st e g of
        Coll c \<Rightarrow> Coll (c\<lparr>c_populated := (c_populated c \<or> (g = f \<and> e = x))\<rparr>)
      | v \<Rightarrow> v)"
proof (cases "g = f \<and> e = x")
  case True
  then show ?thesis by (simp add: setPopulated_def split: slot.splits)
next
  case False
  then show ?thesis by (auto simp: setPopulated_def split: slot.splits)
qed

lemma setPopulated_fold_slots:
  "slots (fold (setPopulated f) es st) e g =
     (case slots st e g of
        Coll c \<Rightarrow> Coll (c\<lparr>c_populated := (c_populated c \<or> (g = f \<and> e \<in> set es))\<rparr>)
      | v \<Rightarrow> v)"
proof (induction es arbitrary: st)
  case Nil
  then show ?case by (simp split: slot.splits)
next
  case (Cons x es)
  show ?case
    by (simp add: Cons.IH setPopulated_slots conj_disj_distribL split: slot.splits)
qed

lemma setPopulated_keeps:
  "initialized (setPopulated f x st) = initialized st"
  "fetches (setPopulated f x st) = fetches st"
  "helper (setPopulated f x st) = helper st"
  "serializedPrimaryKey (setPopulated f x st) = serializedPrimaryKey st"
  "primaryKeysOf (setPopulated f x st) = primaryKeysOf st"
  by (auto simp: setPopulated_def split: slot.splits)

lemma setPopulated_fold_keeps:
  "initialized (fold (setPopulated f) es st) = initialized st"
  "fetches (fold (setPopulated f) es st) = fetches st"
  "helper (fold (setPopulated f) es st) = helper st"
  "serializedPrimaryKey (fold (setPopulated f) es st) = serializedPrimaryKey st"
  "primaryKeysOf (fold (setPopulated f) es st) = primaryKeysOf st"
  by (induction es arbitrary: st) (simp_all add: setPopulated_keeps)

lemma isInitialized_populated:
  "initialized st1 = initialized st \<Longrightarrow>
     isInitialized st1 (c\<lparr>c_populated := b\<rparr>) fully = isInitialized st c fully"
  by (simp add: isInitialized_def)

lemma filterCollections_fold:
  "filterCollections (fold (setPopulated f) es st) entities g refresh
     = filterCollections st entities g refresh"
proof -
  have t: "slot_truthy (slots (fold (setPopulated f) es st) e g) = slot_truthy (slots st e g)" for e
    by (auto simp: setPopulated_fold_slots split: slot.splits)
  have c: "(case slots (fold (setPopulated f) es st) e g of
              Coll c \<Rightarrow> \<not> isInitialized (fold (setPopulated f) es st) c True | _ \<Rightarrow> False)
         = (case slots st e g of Coll c \<Rightarrow> \<not> isInitialized st c True | _ \<Rightarrow> False)" for e
    by (auto simp: setPopulated_fold_slots setPopulated_fold_keeps isInitialized_def
        split: slot.splits)
  show ?thesis by (simp add: filterCollections_def t c)
qed

lemma filterReferences_fold:
  "filterReferences (fold (setPopulated f) es st) entities g refresh
     = filterReferences st entities g refresh"
proof -
  have s: "isEntity (slots (fold (setPopulated f) es st) e g) True = isEntity (slots st e g) True"
    "unwrapReference (slots (fold (setPopulated f) es st) e g) = unwrapReference (slots st e g)" for e
    by (auto simp: setPopulated_fold_slots split: slot.splits)
  show ?thesis
    by (simp add: filterReferences_def s setPopulated_fold_keeps Let_def)
qed

lemma filterByReferences_fold:
  "filterByReferences (fold (setPopulated f) es st) entities g refresh
     = filterByReferences st entities g refresh"
  by (auto simp: filterByReferences_def setPopulated_fold_slots setPopulated_fold_keeps
      intro!: filter_cong split: slot.splits)

lemma getChildReferences_fold:
  "getChildReferences (fold (setPopulated f) es st) entities pr refresh
     = getChildReferences st entities pr refresh"
proof -
  have a: "(case slots (fold (setPopulated f) es st) e g of Coll c \<Rightarrow> Inr (c_owner c) | _ \<Rightarrow> Inl TypeError)
         = (case slots st e g of Coll c \<Rightarrow> Inr (c_owner c) | _ \<Rightarrow> Inl TypeError)" for e g
    by (auto simp: setPopulated_fold_slots split: slot.splits)
  have b: "(case slots (fold (setPopulated f) es st) e g of Coll c \<Rightarrow> Inr (c_items c) | _ \<Rightarrow> Inl TypeError)
         = (case slots st e g of Coll c \<Rightarrow> Inr (c_items c) | _ \<Rightarrow> Inl TypeError)" for e g
    by (auto simp: setPopulated_fold_slots split: slot.splits)
  show ?thesis
    by (simp add: getChildReferences_def filterCollections_fold filterReferences_fold a b Let_def)
qed

lemma lookupBatch_fold:
  "lookupBatch env (fold (setPopulated f) es st) entities pr pop refresh
     = lookupBatch env st entities pr pop refresh"
  by (simp add: lookupBatch_def getChildReferences_fold filterByReferences_fold)

subsection \<open>How many fetches each part issues\<close>

lemma newFetches_append: "fetches st' = fetches st @ new \<Longrightarrow> newFetches st st' = new"
  by (simp add: newFetches_def)

lemma callFind_fetches:
  "callFind env nm c fo st = (r, st') \<Longrightarrow> fetches st' = fetches st @ [Find nm c fo]"
  by (auto simp: callFind_def Let_def split: sum.splits)

lemma findChildren_fetches:
  assumes "findChildren env metadata entities pr pop options st = (r, st')"
  shows "(fetches st' = fetches st \<or> (\<exists>c fo. fetches st' = fetches st @ [Find (prop_type pr) c fo]))
       \<and> (lookupBatch env st entities pr pop (o_refresh options = Some True) = []
            \<longrightarrow> fetches st' = fetches st)
       \<and> (\<forall>data. r = Inr data
             \<and> lookupBatch env st entities pr pop (o_refresh options = Some True) \<noteq> []
            \<longrightarrow> (\<exists>c fo. fetches st' = fetches st @ [Find (prop_type pr) c fo]))"
  using assms
  by (auto simp: findChildren_def lookupBatch_def Let_def dest: callFind_fetches
      split: sum.splits option.splits if_splits)

lemma forEachS_keeps:
  assumes "\<And>x s s'. f x s = Inr s' \<Longrightarrow> P s' = P s"
  shows "P (snd (forEachS f xs s)) = P s"
  using assms by (induction xs arbitrary: s) (auto split: sum.splits)

lemma hydrate_fetches: "hydrate e g items st = Inr st' \<Longrightarrow> fetches st' = fetches st"
  by (auto simp: hydrate_def split: slot.splits)

lemma registerManaged_fold_fetches: "fetches (fold registerManaged items st) = fetches st"
  by (induction items arbitrary: st) (simp_all add: registerManaged_def)

lemma initializeCollections_fetches:
  "fetches (snd (initializeCollections env metadata filtered pr g children st)) = fetches st"
proof -
  have a: "fetches (snd (initializeOneToMany metadata filtered children pr g s)) = fetches s" for s
    unfolding initializeOneToMany_def
    by (rule forEachS_keeps) (auto dest: hydrate_fetches split: sum.splits)
  have b: "fetches (snd (initializeManyToMany filtered children pr g s)) = fetches s" for s
    unfolding initializeManyToMany_def
    by (rule forEachS_keeps) (auto dest: hydrate_fetches split: sum.splits)
  show ?thesis
  proof (cases "initializeOneToMany metadata filtered children pr g st")
    case (Pair e s1)
    then have "fetches s1 = fetches st" using a [of st] by simp
    then show ?thesis using Pair b
      by (auto simp: initializeCollections_def split: option.splits)
  qed
qed

lemma hydrateFromPivot_fetches:
  assumes "forEachS (hydrateFromPivot env pr options pm) xs cs = (e, cs')"
  shows "fetches (snd cs') = fetches (snd cs)"
proof -
  have "fetches (snd (snd (forEachS (hydrateFromPivot env pr options pm) xs cs))) = fetches (snd cs)"
    by (rule forEachS_keeps [where P = "\<lambda>cs. fetches (snd cs)"])
      (auto simp: hydrateFromPivot_def Let_def registerManaged_fold_fetches
         dest!: hydrate_fetches split: option.splits sum.splits)
  then show ?thesis using assms by simp
qed

lemma findChildrenFromPivotTable_fetches:
  assumes "findChildrenFromPivotTable env metadata filtered pr options ob pop st = (r, o', st')"
  shows "(fetches st' = fetches st
          \<or> (\<exists>c flds pops. fetches st' = fetches st
                 @ [LoadFromPivotTable pr (pivotKeys env pr st filtered) c ob o' flds pops]))
       \<and> (\<forall>data. r = Inr data \<longrightarrow>
            (\<exists>c flds pops. fetches st' = fetches st
                 @ [LoadFromPivotTable pr (pivotKeys env pr st filtered) c ob o' flds pops]))"
  using assms
  by (auto simp: findChildrenFromPivotTable_def pivotKeys_def Let_def
      dest!: hydrateFromPivot_fetches
      split: sum.splits prod.splits option.splits if_splits)

lemma populateMany_lazy_path:
  assumes "find_meta metadata entityName = Some meta"
    and "map_of (properties meta) (p_field pop) = Some pr"
    and "reference pr = SCALAR \<and> lazy pr"
    and "populateMany env metadata entityName entities pop options st = (r, o', st')"
  shows "fetches st' = fetches st \<or> (\<exists>c fo. fetches st' = fetches st @ [Find (className meta) c fo])"
  using assms
  by (auto simp: populateMany_def populateLazyScalar_def Let_def dest: callFind_fetches
      split: sum.splits prod.splits if_splits)

lemma populateMany_pivot_path:
  assumes "find_meta metadata entityName = Some meta"
    and "map_of (properties meta) (p_field pop) = Some pr"
    and "reference pr = MANY_TO_MANY" and "usesPivotTable env"
    and "populateMany env metadata entityName entities pop options st = (r, o', st')"
  shows "(fetches st' = fetches st
          \<or> (\<exists>c ob flds pops. fetches st' = fetches st
                 @ [LoadFromPivotTable pr
                      (pivotKeys env pr st
                         (filterCollections st entities (p_field pop) (o_refresh options = Some True)))
                      c ob o' flds pops]))
       \<and> (\<forall>data. r = Inr data \<longrightarrow>
            (\<exists>c ob flds pops. fetches st' = fetches st
                 @ [LoadFromPivotTable pr
                      (pivotKeys env pr st
                         (filterCollections st entities (p_field pop) (o_refresh options = Some True)))
                      c ob o' flds pops]))"
proof -
  let ?st1 = "fold (setPopulated (p_field pop)) entities st"
  let ?filtered = "filterCollections st entities (p_field pop) (o_refresh options = Some True)"
  have run: "findChildrenFromPivotTable env metadata ?filtered pr options (innerOrderBy options pr)
               (Some pop) ?st1 = (r, o', st')"
    using assms by (simp add: populateMany_def Let_def filterCollections_fold)
  have k: "pivotKeys env pr ?st1 ?filtered = pivotKeys env pr st ?filtered"
    by (simp add: pivotKeys_def setPopulated_fold_keeps)
  show ?thesis
    using findChildrenFromPivotTable_fetches [OF run]
    unfolding k setPopulated_fold_keeps by blast
qed

lemma populateMany_find_path:
  assumes "find_meta metadata entityName = Some meta"
    and "map_of (properties meta) (p_field pop) = Some pr"
    and "\<not> (reference pr = SCALAR \<and> lazy pr)" and "reference pr \<noteq> EMBEDDED"
    and "\<not> (reference pr = MANY_TO_MANY \<and> usesPivotTable env)"
    and "populateMany env metadata entityName entities pop options st = (r, o', st')"
  shows "(fetches st' = fetches st \<or> (\<exists>c fo. fetches st' = fetches st @ [Find (prop_type pr) c fo]))
       \<and> (lookupBatch env st entities pr pop (o_refresh options = Some True) = []
            \<longrightarrow> fetches st' = fetches st)
       \<and> (\<forall>data. r = Inr data
             \<and> lookupBatch env st entities pr pop (o_refresh options = Some True) \<noteq> []
            \<longrightarrow> (\<exists>c fo. fetches st' = fetches st @ [Find (prop_type pr) c fo]))"
proof -
  let ?st1 = "fold (setPopulated (p_field pop)) entities st"
  let ?ex = "extractChildCondition env metadata options pr False"
  show ?thesis
  proof (cases "fst ?ex")
    case (Inl e)
    then have "st' = ?st1"
      using assms by (auto simp: populateMany_def Let_def)
    then show ?thesis using Inl assms(6) assms(1-5)
      by (auto simp: populateMany_def Let_def setPopulated_fold_keeps)
  next
    case (Inr cond)
    let ?o2 = "options\<lparr>o_where := Some cond, o_orderBy := Some (JArr (innerOrderBy options pr))\<rparr>"
    obtain r2 st2 where fc: "findChildren env metadata entities pr pop ?o2 ?st1 = (r2, st2)"
      by (cases "findChildren env metadata entities pr pop ?o2 ?st1") auto
    have f2: "(fetches st2 = fetches st \<or> (\<exists>c fo. fetches st2 = fetches st @ [Find (prop_type pr) c fo]))
       \<and> (lookupBatch env st entities pr pop (o_refresh options = Some True) = []
            \<longrightarrow> fetches st2 = fetches st)
       \<and> (\<forall>data. r2 = Inr data
             \<and> lookupBatch env st entities pr pop (o_refresh options = Some True) \<noteq> []
            \<longrightarrow> (\<exists>c fo. fetches st2 = fetches st @ [Find (prop_type pr) c fo]))"
      using findChildren_fetches [OF fc]
      by (simp add: lookupBatch_fold setPopulated_fold_keeps)
    show ?thesis
    proof (cases r2)
      case (Inl e)
      then have "st' = st2" "r = Inl e"
        using assms fc Inr by (auto simp: populateMany_def Let_def)
      then show ?thesis using f2 by auto
    next
      case r2: (Inr data)
      obtain e3 st3 where ic: "initializeCollections env metadata
            (filterCollections ?st1 entities (p_field pop) (o_refresh options = Some True))
            pr (p_field pop) data st2 = (e3, st3)"
        by (cases "initializeCollections env metadata
            (filterCollections ?st1 entities (p_field pop) (o_refresh options = Some True))
            pr (p_field pop) data st2") auto
      have f3: "fetches st3 = fetches st2"
        using initializeCollections_fetches [of env metadata _ pr "p_field pop" data st2] ic
        by (metis snd_conv)
      have "st' = st3" "r = Inr data \<or> (\<exists>e. r = Inl e)"
        using assms fc Inr r2 ic by (auto simp: populateMany_def Let_def split: option.splits)
      then show ?thesis using f2 f3 r2 by auto
    qed
  qed
qed



text \<open>
  C1 (as the code has it). Populating one field issues at most one batched fetch, whatever
  the number of parents. On the \<^verbatim>\<open>em.find\<close> path the fetch is a find: none when the
  batch of lookup keys is empty, exactly one when it is not and the call completes. On the
  pivot-table path it is a pivot fetch, never a find, and a call that completes has issued
  exactly one, also when no parent qualifies. An embedded property issues none.
\<close>

theorem populateMany_one_batched_fetch:
  assumes "find_meta metadata entityName = Some meta"
    and "map_of (properties meta) (p_field pop) = Some pr"
    and "populateMany env metadata entityName entities pop options st = (r, options', st')"
  shows "fetches st' = fetches st @ newFetches st st' \<and> length (newFetches st st') \<le> 1
       \<and> (reference pr = EMBEDDED \<longrightarrow> newFetches st st' = [])
       \<and> (reference pr = MANY_TO_MANY \<and> usesPivotTable env \<longrightarrow>
            (\<forall>f \<in> set (newFetches st st'). \<not> isFind f)
            \<and> (\<forall>data. r = Inr data \<longrightarrow> length (newFetches st st') = 1))
       \<and> (reference pr \<noteq> SCALAR \<and> reference pr \<noteq> EMBEDDED
            \<and> \<not> (reference pr = MANY_TO_MANY \<and> usesPivotTable env) \<longrightarrow>
            (\<forall>f \<in> set (newFetches st st'). isFind f)
            \<and> (lookupBatch env st entities pr pop (o_refresh options = Some True) = []
                 \<longrightarrow> newFetches st st' = [])
            \<and> (\<forall>data. r = Inr data
                  \<and> lookupBatch env st entities pr pop (o_refresh options = Some True) \<noteq> []
                 \<longrightarrow> length (newFetches st st') = 1))"
proof -
  consider (lazy) "reference pr = SCALAR \<and> lazy pr"
    | (embedded) "reference pr = EMBEDDED"
    | (pivot) "reference pr = MANY_TO_MANY \<and> usesPivotTable env"
    | (find) "\<not> (reference pr = SCALAR \<and> lazy pr)" "reference pr \<noteq> EMBEDDED"
        "\<not> (reference pr = MANY_TO_MANY \<and> usesPivotTable env)"
    by blast
  then show ?thesis
  proof cases
    case lazy
    from populateMany_lazy_path [OF assms(1,2) lazy assms(3)]
    show ?thesis using lazy by (auto simp: newFetches_def)
  next
    case embedded
    then have "st' = st" using assms by (auto simp: populateMany_def)
    then show ?thesis using embedded by (simp add: newFetches_def)
  next
    case pivot
    from populateMany_pivot_path [OF assms(1,2) _ _ assms(3)] pivot
    show ?thesis by (auto simp: newFetches_def)
  next
    case find
    from populateMany_find_path [OF assms(1,2) find assms(3)]
    show ?thesis using find by (auto simp: newFetches_def)
  qed
qed

theorem populateMany_one_batched_fetch_witness:
  "find_meta (schemaGH3177 None False) ''User'' = Some (userMeta None)
   \<and> lookupBatch exampleEnv (store False) [2, 2, 2]
        (relation ''accessProfile'' ''UserAccessProfile'' MANY_TO_ONE) (hint ''accessProfile'') False
       = [1, 1, 1]
   \<and> map fetchCondition
        (newFetches (store False)
           (snd (snd (populateMany exampleEnv (schemaGH3177 None False) ''User'' [2, 2, 2]
                        (hint ''accessProfile'') (withDefaults noOptions) (store False)))))
       = [(''UserAccessProfile'', [(''id'', JObj [(''$in'', JArr [JNum 1])])])]
   \<and> length
        (newFetches (store False)
           (snd (snd (populateMany exampleEnv (schemaGH3177 None False) ''User'' [2, 2, 2]
                        (hint ''accessProfile'') (withDefaults noOptions) (store False))))) \<le> 1"
proof -
  let ?pr = "(relation ''accessProfile'' ''UserAccessProfile'' MANY_TO_ONE)\<lparr>prop_strategy := None\<rparr>"
  let ?run = "populateMany exampleEnv (schemaGH3177 None False) ''User'' [2, 2, 2]
                (hint ''accessProfile'') (withDefaults noOptions) (store False)"
  have h1: "find_meta (schemaGH3177 None False) ''User'' = Some (userMeta None)"
    by (simp add: find_meta_def schemaGH3177_def)
  have h2: "map_of (properties (userMeta None)) (p_field (hint ''accessProfile'')) = Some ?pr"
    by (simp add: userMeta_def entity_def relation_def hint_def)
  have h3: "?run = (fst ?run, fst (snd ?run), snd (snd ?run))" by simp
  have b: "lookupBatch exampleEnv (store False) [2, 2, 2]
        (relation ''accessProfile'' ''UserAccessProfile'' MANY_TO_ONE) (hint ''accessProfile'') False
       = [1, 1, 1]"
    by code_simp
  have c: "map fetchCondition (newFetches (store False) (snd (snd ?run)))
       = [(''UserAccessProfile'', [(''id'', JObj [(''$in'', JArr [JNum 1])])])]"
    by code_simp
  from populateMany_one_batched_fetch [OF h1 h2 h3]
  show ?thesis using h1 b c by simp
qed

theorem populateMany_one_batched_fetch_counterexample:
  "filterCollections (store True) [1] ''permissions'' False = []
   \<and> length
        (newFetches (store True)
           (snd (snd (populateMany exampleEnv (schemaGH3177 None False) ''UserAccessProfile'' [1]
                        (hint ''permissions'') (withDefaults noOptions) (store True))))) = 1
   \<and> filterCollections (store False) [1] ''permissions'' False = [1]
   \<and> map isFind
        (newFetches (store False)
           (snd (snd (populateMany exampleEnv (schemaGH3177 None False) ''UserAccessProfile'' [1]
                        (hint ''permissions'') (withDefaults noOptions) (store False))))) = [False]"
  by code_simp




text \<open>
  C5. Evaluated where the caller's condition constrains the batch key with a value that is
  falsy in JavaScript: the derived \<open>{id: {$in: [1]}}\<close> is overwritten by the caller's
  \<open>{id: 0}\<close>, in \<^verbatim>\<open>mergePrimaryCondition\<close> and in the condition of the fetch that
  \<^verbatim>\<open>populateMany\<close> issues. With the truthy \<open>{id: 5}\<close> the two are combined with
  \<open>$and\<close>.
\<close>

theorem batch_condition_overwritten:
  "mergePrimaryCondition exampleEnv [JNum 1] ''id''
      (noOptions\<lparr>o_where := Some [(''id'', JNum 0)]\<rparr>) (profileMeta False)
     = Inr [(''id'', JNum 0)]
   \<and> mergePrimaryCondition exampleEnv [JNum 1] ''id''
      (noOptions\<lparr>o_where := Some [(''id'', JNum 5)]\<rparr>) (profileMeta False)
     = Inr [(''$and'', JArr [JObj [(''id'', JObj [(''$in'', JArr [JNum 1])])],
                             JObj [(''id'', JNum 5)]])]
   \<and> map fetchCondition
        (newFetches (store False)
           (snd (snd (populateMany exampleEnv (schemaGH3177 None False) ''User'' [2]
                        (hint ''accessProfile'')
                        ((withDefaults noOptions)
                           \<lparr>o_where := Some [(''accessProfile'', JObj [(''id'', JNum 0)])]\<rparr>)
                        (store False)))))
       = [(''UserAccessProfile'', [(''id'', JNum 0)])]"
  by code_simp

subsection \<open>Hydrating from the pivot table\<close>

lemma registerManaged_fold_keeps:
  "slots (fold registerManaged items st) = slots st"
  "serializedPrimaryKey (fold registerManaged items st) = serializedPrimaryKey st"
  by (induction items arbitrary: st) (simp_all add: registerManaged_def)

lemma hydrateFromPivot_step:
  assumes "hydrateFromPivot env pr options pm x (acc, s) = Inr (acc', s1)"
  shows "\<exists>rows col. map_of pm (serializedPrimaryKey s x) = Some rows
           \<and> acc' = acc @ map (resolveRow env pr options) rows
           \<and> slots s1 x (prop_name pr) = Coll col
           \<and> c_items col = map (resolveRow env pr options) rows \<and> c_initialized col
           \<and> serializedPrimaryKey s1 = serializedPrimaryKey s
           \<and> (\<forall>e. e \<noteq> x \<longrightarrow> slots s1 e = slots s e)"
  using assms
  by (auto simp: hydrateFromPivot_def hydrate_def Let_def registerManaged_fold_keeps
      split: option.splits sum.splits slot.splits)

lemma hydrateFromPivot_loop:
  assumes "forEachS (hydrateFromPivot env pr options pm) xs (acc, s) = (None, (children, s'))"
  shows "children = acc @ concat (map (\<lambda>e. case map_of pm (serializedPrimaryKey s e) of
                                            None \<Rightarrow> []
                                          | Some rows \<Rightarrow> map (resolveRow env pr options) rows) xs)
       \<and> (\<forall>e \<in> set xs. \<exists>rows col. map_of pm (serializedPrimaryKey s e) = Some rows
             \<and> slots s' e (prop_name pr) = Coll col
             \<and> c_items col = map (resolveRow env pr options) rows \<and> c_initialized col)
       \<and> serializedPrimaryKey s' = serializedPrimaryKey s
       \<and> (\<forall>e. e \<notin> set xs \<longrightarrow> slots s' e = slots s e)"
  using assms
proof (induction xs arbitrary: acc s)
  case Nil
  then show ?case by simp
next
  case (Cons x xs)
  from Cons.prems obtain acc1 s1 where
    step: "hydrateFromPivot env pr options pm x (acc, s) = Inr (acc1, s1)"
    and rest: "forEachS (hydrateFromPivot env pr options pm) xs (acc1, s1) = (None, (children, s'))"
    by (auto split: sum.splits)
  from hydrateFromPivot_step [OF step] obtain rows col where
    rows: "map_of pm (serializedPrimaryKey s x) = Some rows"
    and acc1: "acc1 = acc @ map (resolveRow env pr options) rows"
    and col: "slots s1 x (prop_name pr) = Coll col"
      "c_items col = map (resolveRow env pr options) rows" "c_initialized col"
    and spk: "serializedPrimaryKey s1 = serializedPrimaryKey s"
    and frame: "\<forall>e. e \<noteq> x \<longrightarrow> slots s1 e = slots s e"
    by blast
  note IH = Cons.IH [OF rest]
  have ch: "children = acc @ concat (map (\<lambda>e. case map_of pm (serializedPrimaryKey s e) of
                                            None \<Rightarrow> []
                                          | Some rows \<Rightarrow> map (resolveRow env pr options) rows) (x # xs))"
    using IH acc1 rows spk by simp
  have sl: "\<exists>rows col. map_of pm (serializedPrimaryKey s e) = Some rows
             \<and> slots s' e (prop_name pr) = Coll col
             \<and> c_items col = map (resolveRow env pr options) rows \<and> c_initialized col"
    if "e \<in> set (x # xs)" for e
  proof (cases "e \<in> set xs")
    case True
    then show ?thesis using IH spk by auto
  next
    case False
    then have "e = x" using that by simp
    moreover have "slots s' x = slots s1 x" using IH False \<open>e = x\<close> by auto
    ultimately show ?thesis using rows col by auto
  qed
  have fr: "\<forall>e. e \<notin> set (x # xs) \<longrightarrow> slots s' e = slots s e"
    using IH frame by auto
  show ?case using ch sl fr IH spk by auto
qed

text \<open>
  C8. After a pivot-table load that completes, the collection of every parent holds the
  entities resolved from the rows that the pivot fetch returned under that parent's key, in
  the order of the rows, and the returned children are these lists in the order of the
  parents.
\<close>

theorem pivot_order_preserved:
  assumes "findChildrenFromPivotTable env metadata filtered pr options ob pop st
             = (Inr children, options', st')"
  shows "\<exists>c flds pops pivotMap.
           loadFromPivotTable env pr (pivotKeys env pr st filtered) c ob options' flds pops
             = Inr pivotMap
           \<and> (\<forall>e \<in> set filtered. \<exists>rows col.
                 map_of pivotMap (serializedPrimaryKey st e) = Some rows
                 \<and> slots st' e (prop_name pr) = Coll col
                 \<and> c_items col = map (resolveRow env pr options) rows
                 \<and> c_initialized col)
           \<and> children = concat (map (\<lambda>e. case map_of pivotMap (serializedPrimaryKey st e) of
                                             None \<Rightarrow> []
                                           | Some rows \<Rightarrow> map (resolveRow env pr options) rows)
                                    filtered)"
proof -
  let ?ex = "extractChildCondition env metadata options pr True"
  let ?o1 = "options\<lparr>o_where := snd ?ex\<rparr>"
  let ?pops = "case pop of None \<Rightarrow> [] | Some p \<Rightarrow> (case p_children p of None \<Rightarrow> [] | Some cs \<Rightarrow> cs)"
  note d = findChildrenFromPivotTable_def Let_def
  show ?thesis
  proof (cases "fst ?ex")
    case (Inl e)
    then show ?thesis using assms by (simp add: d)
  next
    case ex: (Inr c)
    show ?thesis
    proof (cases "buildFields metadata (o_fields options) pr")
      case (Inl e)
      then show ?thesis using assms ex by (simp add: d)
    next
      case bf: (Inr flds)
      let ?st1 = "st\<lparr>fetches := fetches st
                      @ [LoadFromPivotTable pr (pivotKeys env pr st filtered) c ob ?o1 flds ?pops]\<rparr>"
      show ?thesis
      proof (cases "loadFromPivotTable env pr (pivotKeys env pr st filtered) c ob ?o1 flds ?pops")
        case (Inl err)
        then show ?thesis using assms ex bf by (simp add: d)
      next
        case call: (Inr pivotMap)
        obtain e cs s2 where
          loop: "forEachS (hydrateFromPivot env pr options pivotMap) filtered ([], ?st1) = (e, cs, s2)"
          by (metis prod.collapse)
        have res: "e = None \<and> children = cs \<and> st' = s2 \<and> options' = ?o1"
          using assms ex bf call loop by (cases e) (simp_all add: d)
        then have loop': "forEachS (hydrateFromPivot env pr options pivotMap) filtered ([], ?st1)
                            = (None, (children, st'))"
          using loop by simp
        from hydrateFromPivot_loop [OF loop']
        have "(\<forall>e \<in> set filtered. \<exists>rows col.
                 map_of pivotMap (serializedPrimaryKey st e) = Some rows
                 \<and> slots st' e (prop_name pr) = Coll col
                 \<and> c_items col = map (resolveRow env pr options) rows
                 \<and> c_initialized col)
           \<and> children = concat (map (\<lambda>e. case map_of pivotMap (serializedPrimaryKey st e) of
                                             None \<Rightarrow> []
                                           | Some rows \<Rightarrow> map (resolveRow env pr options) rows)
                                    filtered)"
          by simp
        then show ?thesis using call res by blast
      qed
    qed
  qed
qed

theorem pivot_order_preserved_witness:
  "fst (findChildrenFromPivotTable exampleEnv (schemaGH3177 None False) [1]
          (relation ''permissions'' ''Permission'' MANY_TO_MANY) (withDefaults noOptions) []
          (Some (hint ''permissions'')) (store False))
     = Inr [11, 10]
   \<and> map_of [(''1'', [[(''id'', JNum 11)], [(''id'', JNum 10)]])]
        (serializedPrimaryKey (store False) 1)
     = Some [[(''id'', JNum 11)], [(''id'', JNum 10)]]
   \<and> (case slots (snd (snd (findChildrenFromPivotTable exampleEnv (schemaGH3177 None False) [1]
          (relation ''permissions'' ''Permission'' MANY_TO_MANY) (withDefaults noOptions) []
          (Some (hint ''permissions'')) (store False)))) 1 ''permissions'' of
         Coll col \<Rightarrow> c_items col = [11, 10] \<and> c_initialized col
       | _ \<Rightarrow> False)"
proof -
  let ?pr = "relation ''permissions'' ''Permission'' MANY_TO_MANY"
  let ?run = "findChildrenFromPivotTable exampleEnv (schemaGH3177 None False) [1] ?pr
                (withDefaults noOptions) [] (Some (hint ''permissions'')) (store False)"
  have r: "fst ?run = Inr [11, 10]" by code_simp
  then have h: "?run = (Inr [11, 10], fst (snd ?run), snd (snd ?run))"
    by (metis prod.collapse)
  have k: "map_of [(''1'', [[(''id'', JNum 11)], [(''id'', JNum 10)]])]
        (serializedPrimaryKey (store False) 1)
     = Some [[(''id'', JNum 11)], [(''id'', JNum 10)]]"
    by (simp add: store_def)
  have pk: "pivotKeys exampleEnv ?pr (store False) [1] = [[JNum 1]]"
    by (simp add: pivotKeys_def relation_def store_def)
  have res: "map (resolveRow exampleEnv ?pr (withDefaults noOptions))
               [[(''id'', JNum 11)], [(''id'', JNum 10)]] = [11, 10]"
    by (simp add: resolveRow_def exampleEnv_def)
  from pivot_order_preserved [OF h]
  obtain c flds pops pivotMap rows col where
    call: "loadFromPivotTable exampleEnv ?pr (pivotKeys exampleEnv ?pr (store False) [1]) c []
             (fst (snd ?run)) flds pops = Inr pivotMap"
    and rows: "map_of pivotMap (serializedPrimaryKey (store False) 1) = Some rows"
    and col: "slots (snd (snd ?run)) 1 (prop_name ?pr) = Coll col"
      "c_items col = map (resolveRow exampleEnv ?pr (withDefaults noOptions)) rows"
      "c_initialized col"
    by auto
  have pm: "pivotMap = [(''1'', [[(''id'', JNum 11)], [(''id'', JNum 10)]])]"
    using call unfolding pk by (simp add: exampleEnv_def)
  have "rows = [[(''id'', JNum 11)], [(''id'', JNum 10)]]"
    using rows k unfolding pm by simp
  then have "c_items col = [11, 10]" using col(2) res by simp
  then show ?thesis using r k col by (simp add: relation_def)
qed

subsection \<open>The two branches of the merged condition\<close>

lemma map_of_spread_aux:
  "map_of (foldl (\<lambda>acc kv. AList.update (fst kv) (snd kv) acc) a b) k =
     (case map_of (rev b) k of None \<Rightarrow> map_of a k | Some v \<Rightarrow> Some v)"
proof (induction b arbitrary: a)
  case Nil
  then show ?case by simp
next
  case (Cons kv b)
  show ?case
    by (simp add: Cons.IH update_conv' map_add_def split: option.splits)
qed

lemma map_of_spread:
  "map_of (spread a b) k = (case map_of (rev b) k of None \<Rightarrow> map_of a k | Some v \<Rightarrow> Some v)"
  unfolding spread_def by (rule map_of_spread_aux)

lemma mergePrimaryCondition_branches:
  assumes "o_where options = Some w"
  shows "mergePrimaryCondition env ids pk options meta =
           (let cond1 = processWhere env [(pk, JObj [(''$in'', JArr ids)])] (meta_name meta)
                          (\<not> (o_convertCustomTypes options = Some True))
            in if (\<exists>v. map_of w pk = Some v \<and> truthy v)
               then Inr [(''$and'', JArr [JObj cond1, JObj w])]
               else Inr (spread cond1 w))"
  using assms by (auto simp: mergePrimaryCondition_def Let_def split: option.splits)

end
